theory Spec2Isabelle
  imports Complex_Main
begin

section \<open>Numeric model\<close>

text \<open>
  The C++ sources compute with \<^verbatim>\<open>double\<close>. A \<^verbatim>\<open>double\<close> is modelled by a
  \<^typ>\<open>real\<close>: arithmetic is exact, rounding is not modelled. A division whose
  divisor is zero leaves the reals (IEEE gives an infinity or a NaN and the
  program keeps running); the model makes each such division explicit instead
  of using the total division of HOL.

  No function of the sources reports an error to its caller: all of them
  return \<^verbatim>\<open>void\<close> and write through output pointers. The error kinds below are
  those of the specification; \<open>Fails\<close> is the outcome a function would have
  if it reported one of them.
\<close>

datatype error =
    InsufficientCorrespondences
  | NoConsensusFound
  | SingularCalibration
  | FailedDecomposition
  | DegenerateInput
  | DegenerateProjection

datatype 'a outcome =
    Fails error     \<comment> \<open>an error is reported to the caller\<close>
  | Undefined       \<comment> \<open>the run has undefined behaviour in C++\<close>
  | NonFinite       \<comment> \<open>the function returns, but an output is an infinity or a NaN\<close>
  | Returns 'a      \<comment> \<open>the function returns these (finite) outputs\<close>

fun obind :: "'a outcome \<Rightarrow> ('a \<Rightarrow> 'b outcome) \<Rightarrow> 'b outcome" where
  "obind (Returns x) f = f x"
| "obind (Fails e) f = Fails e"
| "obind Undefined f = Undefined"
| "obind NonFinite f = NonFinite"

section \<open>Vectors and matrices\<close>

datatype vec2 = Vec2 (x0: real) (x1: real)

datatype vec3 = Vec3 (v0: real) (v1: real) (v2: real)

text \<open>A \<^verbatim>\<open>Mat3\<close>, row by row: \<open>mij\<close> is the entry \<^verbatim>\<open>M(i,j)\<close>.\<close>

datatype mat3 = Mat3
  (m00: real) (m01: real) (m02: real)
  (m10: real) (m11: real) (m12: real)
  (m20: real) (m21: real) (m22: real)

text \<open>A \<^verbatim>\<open>Mat34\<close> \<open>P\<close>: its leading block \<^verbatim>\<open>P.block(0,0,3,3)\<close> and its last
  column \<^verbatim>\<open>P.col(3)\<close>.\<close>

datatype mat34 = Mat34 (block33: mat3) (col3: vec3)

definition Identity :: mat3 where
  "Identity = Mat3 1 0 0  0 1 0  0 0 1"

fun mat_mul :: "mat3 \<Rightarrow> mat3 \<Rightarrow> mat3" where
  "mat_mul (Mat3 a00 a01 a02 a10 a11 a12 a20 a21 a22)
           (Mat3 b00 b01 b02 b10 b11 b12 b20 b21 b22) =
     Mat3 (a00 * b00 + a01 * b10 + a02 * b20)
          (a00 * b01 + a01 * b11 + a02 * b21)
          (a00 * b02 + a01 * b12 + a02 * b22)
          (a10 * b00 + a11 * b10 + a12 * b20)
          (a10 * b01 + a11 * b11 + a12 * b21)
          (a10 * b02 + a11 * b12 + a12 * b22)
          (a20 * b00 + a21 * b10 + a22 * b20)
          (a20 * b01 + a21 * b11 + a22 * b21)
          (a20 * b02 + a21 * b12 + a22 * b22)"

fun mat_vec :: "mat3 \<Rightarrow> vec3 \<Rightarrow> vec3" where
  "mat_vec (Mat3 a00 a01 a02 a10 a11 a12 a20 a21 a22) (Vec3 b0 b1 b2) =
     Vec3 (a00 * b0 + a01 * b1 + a02 * b2)
          (a10 * b0 + a11 * b1 + a12 * b2)
          (a20 * b0 + a21 * b1 + a22 * b2)"

fun transpose3 :: "mat3 \<Rightarrow> mat3" where
  "transpose3 (Mat3 a00 a01 a02 a10 a11 a12 a20 a21 a22) =
     Mat3 a00 a10 a20  a01 a11 a21  a02 a12 a22"

fun mat_scale :: "real \<Rightarrow> mat3 \<Rightarrow> mat3" where
  "mat_scale c (Mat3 a00 a01 a02 a10 a11 a12 a20 a21 a22) =
     Mat3 (c * a00) (c * a01) (c * a02)
          (c * a10) (c * a11) (c * a12)
          (c * a20) (c * a21) (c * a22)"

fun vec_scale :: "real \<Rightarrow> vec3 \<Rightarrow> vec3" where
  "vec_scale c (Vec3 b0 b1 b2) = Vec3 (c * b0) (c * b1) (c * b2)"

definition mat_neg :: "mat3 \<Rightarrow> mat3" where
  "mat_neg A = mat_scale (- 1) A"

fun determinant :: "mat3 \<Rightarrow> real" where
  "determinant (Mat3 a00 a01 a02 a10 a11 a12 a20 a21 a22) =
     a00 * (a11 * a22 - a12 * a21)
   - a01 * (a10 * a22 - a12 * a20)
   + a02 * (a10 * a21 - a11 * a20)"

section \<open>Homogeneous coordinates (projection)\<close>

text \<open>\<^verbatim>\<open>EuclideanToHomogeneous(const Vec2 &X, Vec3 *H)\<close>: \<^verbatim>\<open>*H << X(0), X(1), 1\<close>.\<close>

definition EuclideanToHomogeneous :: "vec2 \<Rightarrow> vec3" where
  "EuclideanToHomogeneous X = Vec3 (x0 X) (x1 X) 1"

text \<open>\<^verbatim>\<open>HomogeneousToEuclidean(const Vec3 &H, Vec2 *X)\<close>: \<^verbatim>\<open>w = H(2)\<close> and
  \<^verbatim>\<open>*X << H(0) / w, H(1) / w\<close>. There is no test of \<open>w\<close>: with \<open>w = 0\<close> both
  quotients are infinities or NaNs.\<close>

definition HomogeneousToEuclidean :: "vec3 \<Rightarrow> vec2 outcome" where
  "HomogeneousToEuclidean H =
     (let w = v2 H in
      if w = 0 then NonFinite else Returns (Vec2 (v0 H / w) (v1 H / w)))"

section \<open>Global bounding box of a chain of warps (mosaicing)\<close>

text \<open>
  \<^verbatim>\<open>Vec2u images_size\<close> holds unsigned integers and \<^verbatim>\<open>Vec4i *bbox\<close> holds
  32-bit \<^verbatim>\<open>int\<close>s, read as \<open>(xmin, xmax, ymin, ymax)\<close>.
\<close>

type_synonym bbox = "int \<times> int \<times> int \<times> int"

text \<open>Storing an \<^verbatim>\<open>unsigned\<close> into an \<^verbatim>\<open>int\<close> wraps around.\<close>

definition int_of_unsigned :: "nat \<Rightarrow> int" where
  "int_of_unsigned n = (if n < 2 ^ 31 then int n else int n - 2 ^ 32)"

text \<open>Storing a \<^verbatim>\<open>double\<close> into an \<^verbatim>\<open>int\<close> truncates towards zero; the
  behaviour is undefined when the truncated value is not an \<^verbatim>\<open>int\<close>.\<close>

definition int_of_double :: "real \<Rightarrow> int outcome" where
  "int_of_double x =
     (let t = (if 0 \<le> x then \<lfloor>x\<rfloor> else \<lceil>x\<rceil>) in
      if - (2 ^ 31) \<le> t \<and> t < 2 ^ 31 then Returns t else Undefined)"

text \<open>The value of a quotient \<^verbatim>\<open>x / y\<close> of two finite doubles: finite when
  \<open>y \<noteq> 0\<close>, a NaN for \<open>0 / 0\<close>, an infinity (of either sign) otherwise.\<close>

datatype quotient = Finite real | Infinite | NaN

definition divide_double :: "real \<Rightarrow> real \<Rightarrow> quotient" where
  "divide_double x y =
     (if y \<noteq> 0 then Finite (x / y) else if x = 0 then NaN else Infinite)"

text \<open>
  \<^verbatim>\<open>ceil0\<close> is declared in \<^verbatim>\<open>libmv/numeric/numeric.h\<close>, which is not among the
  sources; the functions below take it as the parameter \<open>c0\<close>. Like
  \<^verbatim>\<open>ceil\<close>, it is taken to map an infinity to an infinity and a NaN to a NaN.
\<close>

fun apply_ceil0 :: "(real \<Rightarrow> real) \<Rightarrow> quotient \<Rightarrow> quotient" where
  "apply_ceil0 c0 (Finite x) = Finite (c0 x)"
| "apply_ceil0 c0 Infinite = Infinite"
| "apply_ceil0 c0 NaN = NaN"

text \<open>Modelled from the spec: \<^verbatim>\<open>ceil0\<close> (its definition is missing from the
  sources) rounds a coordinate up, "ceiling for all coordinates".\<close>

definition ceil0 :: "real \<Rightarrow> real" where
  "ceil0 x = of_int \<lceil>x\<rceil>"

text \<open>
  One axis of the update of the box by a mapped corner:
  \<^verbatim>\<open>if (q < lo) lo = q; else if (q > hi) hi = q;\<close>
  A NaN compares false both times and leaves the pair as it is. An infinity
  satisfies one of the two tests and is then stored into an \<^verbatim>\<open>int\<close>, which is
  undefined.
\<close>

fun expand :: "quotient \<Rightarrow> int \<times> int \<Rightarrow> (int \<times> int) outcome" where
  "expand (Finite q) (lo, hi) =
     (if q < of_int lo then obind (int_of_double q) (\<lambda>v. Returns (v, hi))
      else if q > of_int hi then obind (int_of_double q) (\<lambda>v. Returns (lo, v))
      else Returns (lo, hi))"
| "expand Infinite (lo, hi) = Undefined"
| "expand NaN (lo, hi) = Returns (lo, hi)"

text \<open>The body of the inner loop for one column \<open>c\<close> of \<^verbatim>\<open>q_bounds\<close>:
  \<^verbatim>\<open>q = H * q_bounds.col(i); q /= q(2);\<close> then \<^verbatim>\<open>ceil0\<close> on \<open>q(0)\<close> and
  \<open>q(1)\<close> and the two updates. The division is not guarded.\<close>

definition corner_step :: "(real \<Rightarrow> real) \<Rightarrow> mat3 \<Rightarrow> vec3 \<Rightarrow> bbox \<Rightarrow> bbox outcome" where
  "corner_step c0 H c b =
     (case b of (xmin, xmax, ymin, ymax) \<Rightarrow>
        let q = mat_vec H c;
            qx = apply_ceil0 c0 (divide_double (v0 q) (v2 q));
            qy = apply_ceil0 c0 (divide_double (v1 q) (v2 q))
        in obind (expand qx (xmin, xmax)) (\<lambda>(xmin', xmax').
           obind (expand qy (ymin, ymax)) (\<lambda>(ymin', ymax').
           Returns (xmin', xmax', ymin', ymax'))))"

text \<open>The inner loop \<^verbatim>\<open>for (int i = 0; i < 4; ++i)\<close> over the columns.\<close>

fun corners_loop :: "(real \<Rightarrow> real) \<Rightarrow> mat3 \<Rightarrow> vec3 list \<Rightarrow> bbox \<Rightarrow> bbox outcome" where
  "corners_loop c0 H [] b = Returns b"
| "corners_loop c0 H (c # cs) b = obind (corner_step c0 H c b) (corners_loop c0 H cs)"

text \<open>The outer loop \<^verbatim>\<open>for (size_t i = 0; i < Hs.size(); ++i)\<close>, with
  \<^verbatim>\<open>H = Hs[i] * H\<close> first.\<close>

fun chain_loop ::
  "(real \<Rightarrow> real) \<Rightarrow> vec3 list \<Rightarrow> mat3 list \<Rightarrow> mat3 \<Rightarrow> bbox \<Rightarrow> bbox outcome" where
  "chain_loop c0 q_bounds [] H b = Returns b"
| "chain_loop c0 q_bounds (Hi # Hs) H b =
     (let H' = mat_mul Hi H in
      obind (corners_loop c0 H' q_bounds b) (chain_loop c0 q_bounds Hs H'))"

text \<open>The columns of \<^verbatim>\<open>q_bounds\<close>: the corners \<open>(0,0)\<close>, \<open>(0,h)\<close>, \<open>(w,h)\<close>,
  \<open>(w,0)\<close> of the image, in homogeneous coordinates.\<close>

definition q_bounds :: "nat \<times> nat \<Rightarrow> vec3 list" where
  "q_bounds images_size =
     (case images_size of (w, h) \<Rightarrow>
        [Vec3 0 0 1, Vec3 0 (real h) 1, Vec3 (real w) (real h) 1, Vec3 (real w) 0 1])"

text \<open>\<^verbatim>\<open>ComputeGlobalBoundingBox(images_size, Hs, bbox)\<close>: \<open>H\<close> starts as the
  identity and the box as \<^verbatim>\<open>images_size(0), 0, images_size(1), 0\<close>.\<close>

definition ComputeGlobalBoundingBox ::
  "(real \<Rightarrow> real) \<Rightarrow> nat \<times> nat \<Rightarrow> mat3 list \<Rightarrow> bbox outcome" where
  "ComputeGlobalBoundingBox c0 images_size Hs =
     chain_loop c0 (q_bounds images_size) Hs Identity
       (int_of_unsigned (fst images_size), 0, int_of_unsigned (snd images_size), 0)"

section \<open>Projection matrices: composition and decomposition\<close>

fun mat_mul34 :: "mat3 \<Rightarrow> mat34 \<Rightarrow> mat34" where
  "mat_mul34 K (Mat34 M p) = Mat34 (mat_mul K M) (mat_vec K p)"

fun mat34_scale :: "real \<Rightarrow> mat34 \<Rightarrow> mat34" where
  "mat34_scale c (Mat34 M p) = Mat34 (mat_scale c M) (vec_scale c p)"

text \<open>\<^verbatim>\<open>P_From_KRt(K, R, t, P)\<close>: the block of \<open>P\<close> is set to \<open>R\<close>, its last
  column to \<open>t\<close>, then \<^verbatim>\<open>(*P) = K * (*P)\<close>.\<close>

definition P_From_KRt :: "mat3 \<Rightarrow> mat3 \<Rightarrow> vec3 \<Rightarrow> mat34" where
  "P_From_KRt K R t = mat_mul34 K (Mat34 R t)"

text \<open>
  \<^verbatim>\<open>K.inverse()\<close> and \<^verbatim>\<open>K / K(2,2)\<close> are operations of the Eigen library. The
  inverse of a fixed-size \<open>3 \<times> 3\<close> matrix is its matrix of cofactors,
  transposed, times \<open>1 / det\<close>; with a zero determinant every entry is an
  infinity or a NaN.
\<close>

fun adjugate :: "mat3 \<Rightarrow> mat3" where
  "adjugate (Mat3 a00 a01 a02 a10 a11 a12 a20 a21 a22) =
     Mat3 (a11 * a22 - a12 * a21) (a02 * a21 - a01 * a22) (a01 * a12 - a02 * a11)
          (a12 * a20 - a10 * a22) (a00 * a22 - a02 * a20) (a02 * a10 - a00 * a12)
          (a10 * a21 - a11 * a20) (a01 * a20 - a00 * a21) (a00 * a11 - a01 * a10)"

definition inverse3 :: "mat3 \<Rightarrow> mat3 outcome" where
  "inverse3 A =
     (if determinant A = 0 then NonFinite
      else Returns (mat_scale (1 / determinant A) (adjugate A)))"

definition mat_divide :: "mat3 \<Rightarrow> real \<Rightarrow> mat3 outcome" where
  "mat_divide A c = (if c = 0 then NonFinite else Returns (mat_scale (1 / c) A))"

text \<open>
  \<^verbatim>\<open>KRt_From_P\<close> works on the pair \<open>(K, Q)\<close>, with \<open>K\<close> the block of \<open>P\<close> and
  \<open>Q\<close> the identity at first. The three blocks "Set K(2,1) to zero", "Set
  K(2,0) to zero" and "Set K(1,0) to zero" each multiply \<open>K\<close> on the right by
  a Givens rotation and \<open>Q\<close> on the left by its transpose. The first two
  rotations are declared with their size, \<^verbatim>\<open>Mat Qx(3,3)\<close> and
  \<^verbatim>\<open>Mat Qy(3,3)\<close>.
\<close>

definition set_K21_to_zero :: "mat3 \<times> mat3 \<Rightarrow> mat3 \<times> mat3" where
  "set_K21_to_zero KQ =
     (case KQ of (K, Q) \<Rightarrow>
        if m21 K \<noteq> 0 then
          let c = - m22 K; s = m21 K;
              l = sqrt (c * c + s * s);
              c = c / l; s = s / l;
              Qx = Mat3 1 0 0
                        0 c (- s)
                        0 s c
          in (mat_mul K Qx, mat_mul (transpose3 Qx) Q)
        else (K, Q))"

definition set_K20_to_zero :: "mat3 \<times> mat3 \<Rightarrow> mat3 \<times> mat3" where
  "set_K20_to_zero KQ =
     (case KQ of (K, Q) \<Rightarrow>
        if m20 K \<noteq> 0 then
          let c = m22 K; s = m20 K;
              l = sqrt (c * c + s * s);
              c = c / l; s = s / l;
              Qy = Mat3 c 0 s
                        0 1 0
                        (- s) 0 c
          in (mat_mul K Qy, mat_mul (transpose3 Qy) Q)
        else (K, Q))"

text \<open>
  The third block declares its rotation as \<^verbatim>\<open>Mat Qz;\<close>, without a size.
  \<^verbatim>\<open>Mat\<close> is a dynamically sized matrix (it is constructed with its two
  dimensions in the other blocks and resized in \<^verbatim>\<open>HomogeneousToEuclidean\<close>),
  so \<^verbatim>\<open>Qz\<close> is empty, and writing the nine coefficients into it with
  \<^verbatim>\<open><<\<close> is outside what the matrix holds: the block has no defined
  behaviour. It is entered when \<open>K(1,0) \<noteq> 0\<close>; otherwise the pair is left as
  it is.
\<close>

definition set_K10_to_zero :: "mat3 \<times> mat3 \<Rightarrow> (mat3 \<times> mat3) outcome" where
  "set_K10_to_zero KQ =
     (case KQ of (K, Q) \<Rightarrow>
        if m10 K \<noteq> 0 then Undefined
        else Returns (K, Q))"

text \<open>"Ensure that the diagonal is positive": the three tests on \<open>K(2,2)\<close>,
  \<open>K(1,1)\<close> and \<open>K(0,0)\<close>, in this order, on the pair \<open>(K, R)\<close>.\<close>

definition negate_if_K22_negative :: "mat3 \<times> mat3 \<Rightarrow> mat3 \<times> mat3" where
  "negate_if_K22_negative KR =
     (case KR of (K, R) \<Rightarrow>
        if m22 K < 0 then (mat_neg K, mat_neg R) else (K, R))"

definition flip_if_K11_negative :: "mat3 \<times> mat3 \<Rightarrow> mat3 \<times> mat3" where
  "flip_if_K11_negative KR =
     (case KR of (K, R) \<Rightarrow>
        if m11 K < 0 then
          let S = Mat3 1 0 0
                       0 (- 1) 0
                       0 0 1
          in (mat_mul K S, mat_mul S R)
        else (K, R))"

definition flip_if_K00_negative :: "mat3 \<times> mat3 \<Rightarrow> mat3 \<times> mat3" where
  "flip_if_K00_negative KR =
     (case KR of (K, R) \<Rightarrow>
        if m00 K < 0 then
          let S = Mat3 (- 1) 0 0
                       0 1 0
                       0 0 1
          in (mat_mul K S, mat_mul S R)
        else (K, R))"

text \<open>The pair \<open>(K, R)\<close> before the translation is computed.\<close>

definition rq_factors :: "mat3 \<Rightarrow> (mat3 \<times> mat3) outcome" where
  "rq_factors M =
     obind (set_K10_to_zero (set_K20_to_zero (set_K21_to_zero (M, Identity)))) (\<lambda>KQ.
       Returns (flip_if_K00_negative (flip_if_K11_negative (negate_if_K22_negative KQ))))"

text \<open>\<^verbatim>\<open>KRt_From_P(P, Kp, Rp, tp)\<close>: after the factors, \<^verbatim>\<open>t = K.inverse() * p\<close>
  with \<open>p\<close> the last column of \<open>P\<close>, then \<^verbatim>\<open>K = K / K(2,2)\<close>. Nothing is tested
  before the inversion or the division.\<close>

definition KRt_From_P :: "mat34 \<Rightarrow> (mat3 \<times> mat3 \<times> vec3) outcome" where
  "KRt_From_P P =
     obind (rq_factors (block33 P)) (\<lambda>(K, R).
        let p = col3 P in
        obind (inverse3 K) (\<lambda>Kinv.
          let t = mat_vec Kinv p in
          obind (mat_divide K (m22 K)) (\<lambda>K'.
            Returns (K', R, t))))"

section \<open>Relative transforms between consecutive images (mosaicing)\<close>

text \<open>
  \<^verbatim>\<open>Matches\<close>, \<^verbatim>\<open>TwoViewPointMatchMatrices\<close> and the two robust estimators
  are declared in headers that are not among the sources; they are parameters
  of the model:
  \<^item> \<open>images\<close> is the ordered set \<^verbatim>\<open>matches.get_images()\<close>, as the list of its
    elements in increasing order;
  \<^item> \<open>points prev cur\<close> is what \<^verbatim>\<open>TwoViewPointMatchMatrices(matches, prev, cur, &xs2)\<close>
    stores into \<^verbatim>\<open>xs2[0]\<close> and \<^verbatim>\<open>xs2[1]\<close>, each matrix as the list of its
    columns, so that \<^verbatim>\<open>xs2[0].cols()\<close> is the length of the first list;
  \<^item> \<open>estimate xs1 xs2 max_error_2d A outliers_prob\<close> is the matrix held by the
    local variable \<open>A\<close> (or \<open>H\<close>) after the call of the robust estimator,
    \<open>A\<close> being the matrix it held before. Whatever the estimator returns is
    ignored by the source.
  The local matrix is not initialised in the source: its first value \<open>A0\<close> is
  a parameter too.
\<close>

type_synonym image_id = nat

type_synonym point_matrix = "vec2 list"

type_synonym two_view_points = "image_id \<Rightarrow> image_id \<Rightarrow> point_matrix \<times> point_matrix"

type_synonym robust_estimator =
  "point_matrix \<Rightarrow> point_matrix \<Rightarrow> real \<Rightarrow> mat3 \<Rightarrow> real \<Rightarrow> mat3"

text \<open>The loop of \<^verbatim>\<open>ComputeRelativeAffineMatrices\<close>: \<open>prev\<close> is
  \<^verbatim>\<open>*prev_image_iter\<close>, the list holds the images from \<^verbatim>\<open>*image_iter\<close> on. A
  pair with fewer than 2 columns appends nothing and the loop goes on.\<close>

fun affine_loop ::
  "two_view_points \<Rightarrow> robust_estimator \<Rightarrow> real \<Rightarrow> real \<Rightarrow>
   image_id \<Rightarrow> image_id list \<Rightarrow> mat3 \<Rightarrow> mat3 list \<Rightarrow> mat3 list" where
  "affine_loop points estimate outliers_prob max_error_2d prev [] A As = As"
| "affine_loop points estimate outliers_prob max_error_2d prev (cur # rest) A As =
     (let xs2 = points prev cur in
      if length (fst xs2) \<ge> 2 then
        let A' = estimate (fst xs2) (snd xs2) max_error_2d A outliers_prob in
        affine_loop points estimate outliers_prob max_error_2d cur rest A' (As @ [A'])
      else
        affine_loop points estimate outliers_prob max_error_2d cur rest A As)"

text \<open>\<^verbatim>\<open>ComputeRelativeAffineMatrices(matches, As, outliers_prob, max_error_2d)\<close>.
  With no image at all the source passes \<^verbatim>\<open>NumImages() - 1\<close> to
  \<^verbatim>\<open>reserve\<close> and increments the end iterator of the empty set, which is
  undefined.\<close>

definition ComputeRelativeAffineMatrices ::
  "two_view_points \<Rightarrow> robust_estimator \<Rightarrow> mat3 \<Rightarrow>
   image_id list \<Rightarrow> mat3 list \<Rightarrow> real \<Rightarrow> real \<Rightarrow> mat3 list outcome" where
  "ComputeRelativeAffineMatrices points estimate A0 images As outliers_prob max_error_2d =
     (case images of
        [] \<Rightarrow> Undefined
      | first # rest \<Rightarrow>
          Returns (affine_loop points estimate outliers_prob max_error_2d first rest A0 As))"

text \<open>The loop of \<^verbatim>\<open>ComputeRelativeHomographyMatrices\<close>: the same, with the
  test \<^verbatim>\<open>xs2[0].cols() >= 4\<close>.\<close>

fun homography_loop ::
  "two_view_points \<Rightarrow> robust_estimator \<Rightarrow> real \<Rightarrow> real \<Rightarrow>
   image_id \<Rightarrow> image_id list \<Rightarrow> mat3 \<Rightarrow> mat3 list \<Rightarrow> mat3 list" where
  "homography_loop points estimate outliers_prob max_error_2d prev [] H Hs = Hs"
| "homography_loop points estimate outliers_prob max_error_2d prev (cur # rest) H Hs =
     (let xs2 = points prev cur in
      if length (fst xs2) \<ge> 4 then
        let H' = estimate (fst xs2) (snd xs2) max_error_2d H outliers_prob in
        homography_loop points estimate outliers_prob max_error_2d cur rest H' (Hs @ [H'])
      else
        homography_loop points estimate outliers_prob max_error_2d cur rest H Hs)"

definition ComputeRelativeHomographyMatrices ::
  "two_view_points \<Rightarrow> robust_estimator \<Rightarrow> mat3 \<Rightarrow>
   image_id list \<Rightarrow> mat3 list \<Rightarrow> real \<Rightarrow> real \<Rightarrow> mat3 list outcome" where
  "ComputeRelativeHomographyMatrices points estimate H0 images Hs outliers_prob max_error_2d =
     (case images of
        [] \<Rightarrow> Undefined
      | first # rest \<Rightarrow>
          Returns (homography_loop points estimate outliers_prob max_error_2d first rest H0 Hs))"

text \<open>The adjacent pairs of images that have at least \<open>k\<close> correspondences.\<close>

definition pairs_with_at_least :: "nat \<Rightarrow> two_view_points \<Rightarrow> image_id list \<Rightarrow> (image_id \<times> image_id) list" where
  "pairs_with_at_least k points images =
     filter (\<lambda>(a, b). k \<le> length (fst (points a b))) (zip images (tl images))"

text \<open>
  The chain obtained by calling the estimator on the pairs of a list and on
  no other pair, in the order of the list: each call receives the two point
  matrices of its pair and the matrix stored by the call before it (\<open>A\<close> at
  first), and the matrix it stores is appended to the chain.
\<close>

fun chain_of_estimates ::
  "two_view_points \<Rightarrow> robust_estimator \<Rightarrow> real \<Rightarrow> real \<Rightarrow>
   (image_id \<times> image_id) list \<Rightarrow> mat3 \<Rightarrow> mat3 list \<Rightarrow> mat3 list" where
  "chain_of_estimates points estimate outliers_prob max_error_2d [] A As = As"
| "chain_of_estimates points estimate outliers_prob max_error_2d ((a, b) # pairs) A As =
     (let A' = estimate (fst (points a b)) (snd (points a b)) max_error_2d A outliers_prob in
      chain_of_estimates points estimate outliers_prob max_error_2d pairs A' (As @ [A']))"

text \<open>Example data for the loops above: a provider with one correspondence
  per pair, one with three, and an estimator that always stores the
  identity.\<close>

definition one_correspondence :: two_view_points where
  "one_correspondence a b = ([Vec2 0 0], [Vec2 1 1])"

definition three_correspondences :: two_view_points where
  "three_correspondences a b =
     ([Vec2 0 0, Vec2 1 0, Vec2 0 1], [Vec2 1 1, Vec2 2 1, Vec2 1 2])"

definition identity_estimator :: robust_estimator where
  "identity_estimator xs1 xs2 max_error_2d A outliers_prob = Identity"

text \<open>More example data: a provider with one correspondence for the pair
  starting at image 1 and four for the others, and an estimator that stores
  twice the matrix it finds, so that the number of its calls shows in the
  result.\<close>

definition four_correspondences :: two_view_points where
  "four_correspondences a b =
     ([Vec2 0 0, Vec2 1 0, Vec2 0 1, Vec2 1 1], [Vec2 1 1, Vec2 2 1, Vec2 1 2, Vec2 2 2])"

definition one_then_four :: two_view_points where
  "one_then_four a b = (if a = 1 then one_correspondence a b else four_correspondences a b)"

definition doubling_estimator :: robust_estimator where
  "doubling_estimator xs1 xs2 max_error_2d A outliers_prob = mat_scale 2 A"

section \<open>The rank-2 parameterization of the fundamental matrix\<close>

text \<open>An \<^verbatim>\<open>Eigen::Quaternion\<close>, by its coefficients in the order of Eigen's
  \<^verbatim>\<open>coeffs()\<close>: \<open>x\<close>, \<open>y\<close>, \<open>z\<close>, \<open>w\<close>.\<close>

datatype quaternion = Quaternion (qx: real) (qy: real) (qz: real) (qw: real)

text \<open>The parameter vector \<^verbatim>\<open>Eigen::Matrix<T, 9, 1>\<close>: \<open>u\<close> is \<open>p[0..3]\<close>,
  \<open>s\<close> is \<open>p[4]\<close> and \<open>vt\<close> is \<open>p[5..8]\<close>.\<close>

datatype parameters = Parameters (p_u: quaternion) (p_s: real) (p_vt: quaternion)

text \<open>
  \<^verbatim>\<open>Quaternion::toRotationMatrix()\<close> is a function of the Eigen library. It
  evaluates the usual formula on the coefficients as they are: the quaternion
  is not normalised.
\<close>

fun toRotationMatrix :: "quaternion \<Rightarrow> mat3" where
  "toRotationMatrix (Quaternion x y z w) =
     (let tx = 2 * x; ty = 2 * y; tz = 2 * z;
          twx = tx * w; twy = ty * w; twz = tz * w;
          txx = tx * x; txy = ty * x; txz = tz * x;
          tyy = ty * y; tyz = tz * y; tzz = tz * z
      in Mat3 (1 - (tyy + tzz)) (txy - twz) (txz + twy)
              (txy + twz) (1 - (txx + tzz)) (tyz - twx)
              (txz - twy) (tyz + twx) (1 - (txx + tyy)))"

text \<open>\<^verbatim>\<open>FundamentalRank2Parameterization::To(p, f)\<close>: the quaternions are
  read from the parameters, \<^verbatim>\<open>s = 1 / (1 + p[4]*p[4])\<close>, \<open>S\<close> is the diagonal
  matrix of \<open>1\<close>, \<open>s\<close>, \<open>0\<close> and
  \<^verbatim>\<open>*f = u.toRotationMatrix() * S * vt.toRotationMatrix()\<close>.\<close>

definition To :: "parameters \<Rightarrow> mat3" where
  "To p =
     (let u = p_u p; vt = p_vt p;
          s = 1 / (1 + p_s p * p_s p);
          S = Mat3 1 0 0
                   0 s 0
                   0 0 0
      in mat_mul (mat_mul (toRotationMatrix u) S) (toRotationMatrix vt))"

text \<open>
  The singular values of \<open>F\<close> are the square roots of the eigenvalues of
  \<open>F\<^sup>T F\<close>, that is of the roots of its characteristic polynomial
  \<open>\<lambda>\<^sup>3 - e\<^sub>1 \<lambda>\<^sup>2 + e\<^sub>2 \<lambda> - e\<^sub>3\<close>, whose coefficients are the trace, the sum of the
  principal \<open>2 \<times> 2\<close> minors and the determinant. \<open>F\<close> has the singular values
  \<open>s1 \<ge> s2 \<ge> s3 \<ge> 0\<close> when these coefficients are the elementary symmetric
  functions of \<open>s1\<^sup>2\<close>, \<open>s2\<^sup>2\<close>, \<open>s3\<^sup>2\<close>.
\<close>

definition gram :: "mat3 \<Rightarrow> mat3" where
  "gram F = mat_mul (transpose3 F) F"

fun trace3 :: "mat3 \<Rightarrow> real" where
  "trace3 (Mat3 a00 a01 a02 a10 a11 a12 a20 a21 a22) = a00 + a11 + a22"

fun principal_minors :: "mat3 \<Rightarrow> real" where
  "principal_minors (Mat3 a00 a01 a02 a10 a11 a12 a20 a21 a22) =
     (a00 * a11 - a01 * a10) + (a00 * a22 - a02 * a20) + (a11 * a22 - a12 * a21)"

definition has_singular_values :: "mat3 \<Rightarrow> real \<Rightarrow> real \<Rightarrow> real \<Rightarrow> bool" where
  "has_singular_values F s1 s2 s3 \<longleftrightarrow>
     s1 \<ge> s2 \<and> s2 \<ge> s3 \<and> s3 \<ge> 0
   \<and> trace3 (gram F) = s1\<^sup>2 + s2\<^sup>2 + s3\<^sup>2
   \<and> principal_minors (gram F) = s1\<^sup>2 * s2\<^sup>2 + s1\<^sup>2 * s3\<^sup>2 + s2\<^sup>2 * s3\<^sup>2
   \<and> determinant (gram F) = s1\<^sup>2 * s2\<^sup>2 * s3\<^sup>2"

definition quaternion_norm2 :: "quaternion \<Rightarrow> real" where
  "quaternion_norm2 q = qx q * qx q + qy q * qy q + qz q * qz q + qw q * qw q"

text \<open>\<^verbatim>\<open>Quaternion::normalize()\<close> (Eigen) divides the coefficients by their
  norm; a zero norm gives NaNs.\<close>

definition normalize :: "quaternion \<Rightarrow> quaternion outcome" where
  "normalize q =
     (let n = sqrt (quaternion_norm2 q) in
      if n = 0 then NonFinite
      else Returns (Quaternion (qx q / n) (qy q / n) (qz q / n) (qw q / n)))"

text \<open>
  \<^verbatim>\<open>FundamentalRank2Parameterization::From(f, p)\<close>. The singular value
  decomposition \<^verbatim>\<open>Eigen::SVD\<close> and the conversion of a matrix into a quaternion
  (the assignment of a \<open>3 \<times> 3\<close> matrix to an \<^verbatim>\<open>Eigen::Quaternion\<close>) are
  functions of the Eigen library; they are the parameters \<open>svd\<close>, which gives
  \<^verbatim>\<open>matrixU()\<close>, \<^verbatim>\<open>singularValues()\<close> and \<^verbatim>\<open>matrixV()\<close>, and
  \<open>quaternion_of_matrix\<close>. The source takes \<open>U\<close> or \<open>-U\<close> according to the
  sign of the determinant, and likewise the transpose of \<open>V\<close>, normalises both
  quaternions and stores \<^verbatim>\<open>sqrt(s[0] / s[1] - 1)\<close> between them. Nothing is
  tested: a zero \<open>s[1]\<close> or a negative argument of the square root give a
  parameter that is not finite.
\<close>

definition From ::
  "(mat3 \<Rightarrow> mat3 \<times> vec3 \<times> mat3) \<Rightarrow> (mat3 \<Rightarrow> quaternion) \<Rightarrow> mat3 \<Rightarrow> parameters outcome" where
  "From svd quaternion_of_matrix f =
     (case svd f of (U, singularValues, V) \<Rightarrow>
        let u = quaternion_of_matrix
                  (if determinant U > 0 then U else mat_neg U);
            vt = quaternion_of_matrix
                  (if determinant V > 0 then transpose3 V else mat_neg (transpose3 V))
        in obind (normalize u) (\<lambda>u.
           obind (normalize vt) (\<lambda>vt.
             if v1 singularValues = 0 then NonFinite
             else if v0 singularValues / v1 singularValues - 1 < 0 then NonFinite
             else Returns (Parameters u
                    (sqrt (v0 singularValues / v1 singularValues - 1)) vt))))"

text \<open>The difference of two matrices, the square of the Frobenius norm and
  the diagonal matrix of three numbers.\<close>

fun mat_sub :: "mat3 \<Rightarrow> mat3 \<Rightarrow> mat3" where
  "mat_sub (Mat3 a00 a01 a02 a10 a11 a12 a20 a21 a22)
           (Mat3 b00 b01 b02 b10 b11 b12 b20 b21 b22) =
     Mat3 (a00 - b00) (a01 - b01) (a02 - b02)
          (a10 - b10) (a11 - b11) (a12 - b12)
          (a20 - b20) (a21 - b21) (a22 - b22)"

fun frobenius2 :: "mat3 \<Rightarrow> real" where
  "frobenius2 (Mat3 a00 a01 a02 a10 a11 a12 a20 a21 a22) =
     a00\<^sup>2 + a01\<^sup>2 + a02\<^sup>2 + a10\<^sup>2 + a11\<^sup>2 + a12\<^sup>2 + a20\<^sup>2 + a21\<^sup>2 + a22\<^sup>2"

definition diag3 :: "real \<Rightarrow> real \<Rightarrow> real \<Rightarrow> mat3" where
  "diag3 a b c = Mat3 a 0 0  0 b 0  0 0 c"

definition norm2 :: "vec3 \<Rightarrow> real" where
  "norm2 x = (v0 x)\<^sup>2 + (v1 x)\<^sup>2 + (v2 x)\<^sup>2"

text \<open>Example data for \<open>From\<close>: a decomposition that returns the identity for
  \<open>U\<close> and \<open>V\<close> and the singular values \<open>2\<close>, \<open>1\<close>, \<open>1/2\<close> (it is the
  decomposition of the diagonal matrix of these values), and a conversion that
  returns the quaternion of the identity.\<close>

definition diagonal_svd :: "mat3 \<Rightarrow> mat3 \<times> vec3 \<times> mat3" where
  "diagonal_svd f = (Identity, Vec3 2 1 (1 / 2), Identity)"

definition identity_quaternion :: "mat3 \<Rightarrow> quaternion" where
  "identity_quaternion R = Quaternion 0 0 0 1"

section \<open>Round trip through homogeneous coordinates\<close>

text \<open>
  Claim C10. For every 2D Euclidean point \<open>x\<close>, converting it to homogeneous
  coordinates and back returns \<open>x\<close> exactly: the appended coordinate is 1 and
  dividing by it changes nothing.
\<close>

theorem HomogeneousToEuclidean_EuclideanToHomogeneous:
  "HomogeneousToEuclidean (EuclideanToHomogeneous x) = Returns x"
  by (simp add: HomogeneousToEuclidean_def EuclideanToHomogeneous_def)

section \<open>The bounding box of a chain of identity warps\<close>

lemma mat_mul_Identity_left: "mat_mul Identity A = A"
  by (cases A) (simp add: Identity_def)

lemma mat_vec_Identity: "mat_vec Identity c = c"
  by (cases c) (simp add: Identity_def)

lemma int_of_double_nat: "n < 2 ^ 31 \<Longrightarrow> int_of_double (real n) = Returns (int n)"
proof -
  assume "n < 2 ^ 31"
  then have "int n < 2 ^ 31"
    by (metis of_nat_less_iff of_nat_numeral of_nat_power)
  then show ?thesis
    by (simp add: int_of_double_def)
qed

lemma int_of_unsigned_small: "n < 2 ^ 31 \<Longrightarrow> int_of_unsigned n = int n"
  by (simp add: int_of_unsigned_def)

lemma expand_whole:
  assumes "n < 2 ^ 31" and "\<forall>n::nat. c0 (real n) = real n"
  shows "expand (apply_ceil0 c0 (divide_double (real n) 1)) (lo, hi) =
     (if int n < lo then Returns (int n, hi)
      else if int n > hi then Returns (lo, int n) else Returns (lo, hi))"
  using assms by (simp add: divide_double_def int_of_double_nat)

lemma corners_first:
  assumes W: "W < 2 ^ 31" and H: "H < 2 ^ 31" and c0: "\<forall>n::nat. c0 (real n) = real n"
  shows "corners_loop c0 Identity (q_bounds (W, H)) (int W, 0, int H, 0) = Returns (0, int W, 0, int H)"
proof -
  have z: "c0 0 = 0" using c0 [rule_format, of 0] by simp
  have e0: "\<And>lo hi. expand (apply_ceil0 c0 (divide_double 0 1)) (lo, hi) =
     (if 0 < lo then Returns (0, hi)
      else if 0 > hi then Returns (lo, 0) else Returns (lo, hi))"
    using expand_whole [of 0 c0] c0 by simp
  note eW = expand_whole [OF W c0]
  note eH = expand_whole [OF H c0]
  show ?thesis
    by (simp add: q_bounds_def corner_step_def mat_vec_Identity e0 eW eH)
qed

lemma corners_again:
  assumes W: "W < 2 ^ 31" and H: "H < 2 ^ 31" and c0: "\<forall>n::nat. c0 (real n) = real n"
  shows "corners_loop c0 Identity (q_bounds (W, H)) (0, int W, 0, int H) = Returns (0, int W, 0, int H)"
proof -
  have z: "c0 0 = 0" using c0 [rule_format, of 0] by simp
  have e0: "\<And>lo hi. expand (apply_ceil0 c0 (divide_double 0 1)) (lo, hi) =
     (if 0 < lo then Returns (0, hi)
      else if 0 > hi then Returns (lo, 0) else Returns (lo, hi))"
    using expand_whole [of 0 c0] c0 by simp
  note eW = expand_whole [OF W c0]
  note eH = expand_whole [OF H c0]
  show ?thesis
    by (simp add: q_bounds_def corner_step_def mat_vec_Identity e0 eW eH)
qed

lemma chain_again:
  assumes W: "W < 2 ^ 31" and H: "H < 2 ^ 31" and c0: "\<forall>n::nat. c0 (real n) = real n"
  shows "chain_loop c0 (q_bounds (W, H)) (replicate N Identity) Identity (0, int W, 0, int H)
     = Returns (0, int W, 0, int H)"
  by (induction N) (simp_all add: mat_mul_Identity_left corners_again [OF assms])

text \<open>
  Claim C3. For every \<open>N \<ge> 1\<close>, \<^verbatim>\<open>ComputeGlobalBoundingBox\<close> applied to a chain
  of \<open>N\<close> identity transforms over images of size \<open>W \<times> H\<close> returns the box
  \<open>(xmin, xmax, ymin, ymax) = (0, W, 0, H)\<close> exactly. \<open>W\<close> and \<open>H\<close> are the
  width and height of an image, which \<^verbatim>\<open>BuildMosaic\<close> reads from the
  \<^verbatim>\<open>int\<close>-valued \<^verbatim>\<open>Width()\<close> and \<^verbatim>\<open>Height()\<close>: they are below \<open>2^31\<close>. The
  rounding function \<open>c0\<close> (\<^verbatim>\<open>ceil0\<close>) is only required to leave whole numbers
  as they are.
\<close>

theorem ComputeGlobalBoundingBox_identity_chain:
  assumes N: "1 \<le> N" and W: "W < 2 ^ 31" and H: "H < 2 ^ 31"
    and c0: "\<forall>n::nat. c0 (real n) = real n"
  shows "ComputeGlobalBoundingBox c0 (W, H) (replicate N Identity) = Returns (0, int W, 0, int H)"
proof -
  from N obtain M where M: "N = Suc M" by (cases N) auto
  show ?thesis
    by (simp add: ComputeGlobalBoundingBox_def M mat_mul_Identity_left
        int_of_unsigned_small [OF W] int_of_unsigned_small [OF H]
        corners_first [OF W H c0] chain_again [OF W H c0])
qed

theorem ComputeGlobalBoundingBox_identity_chain_witness:
  "ComputeGlobalBoundingBox ceil0 (640, 480) (replicate 3 Identity) = Returns (0, 640, 0, 480)"
  using ComputeGlobalBoundingBox_identity_chain [of 3 640 480 ceil0]
  by (simp add: ceil0_def)

section \<open>Dehomogenization in the bounding box computation\<close>

lemma obind_no_Fails:
  "m \<noteq> Fails e \<Longrightarrow> (\<And>x. f x \<noteq> Fails e) \<Longrightarrow> obind m f \<noteq> Fails e"
  by (cases m) simp_all

lemma int_of_double_no_Fails: "int_of_double x \<noteq> Fails e"
  by (simp add: int_of_double_def Let_def)

lemma expand_no_Fails: "expand q p \<noteq> Fails e"
proof (cases p)
  case (Pair lo hi)
  show ?thesis
    unfolding Pair
    by (cases q) (simp_all add: obind_no_Fails int_of_double_no_Fails)
qed

lemma obind_Fails_iff:
  "obind m f = Fails e \<longleftrightarrow> m = Fails e \<or> (\<exists>x. m = Returns x \<and> f x = Fails e)"
  by (cases m) auto

lemma corner_step_no_Fails: "corner_step c0 H c b \<noteq> Fails e"
  by (auto simp add: corner_step_def Let_def obind_Fails_iff expand_no_Fails split: prod.splits)

lemma corners_loop_no_Fails: "corners_loop c0 H cs b \<noteq> Fails e"
  by (induction cs arbitrary: b) (simp_all add: obind_no_Fails corner_step_no_Fails)

lemma chain_loop_no_Fails: "chain_loop c0 qb Hs H b \<noteq> Fails e"
  by (induction Hs arbitrary: H b) (simp_all add: Let_def obind_no_Fails corners_loop_no_Fails)

lemma corner_step_zero_w:
  assumes "v2 (mat_vec H c) = 0"
  shows "corner_step c0 H c b =
     (if v0 (mat_vec H c) = 0 \<and> v1 (mat_vec H c) = 0 then Returns b else Undefined)"
  using assms
  by (cases b) (auto simp add: corner_step_def divide_double_def Let_def)

text \<open>
  Claim C8, as amended. Neither \<^verbatim>\<open>ComputeGlobalBoundingBox\<close> nor
  \<^verbatim>\<open>HomogeneousToEuclidean\<close> ever reports an error: each mapped corner is
  divided by its homogeneous coordinate without a test. When that coordinate is
  zero, the division is carried out all the same: in the loop body a corner
  with \<open>q = (0, 0, 0)\<close> gives NaNs and leaves the box as it is, any other
  corner with \<open>q(2) = 0\<close> gives an infinity whose store into the \<^verbatim>\<open>int\<close> box
  is undefined; \<^verbatim>\<open>HomogeneousToEuclidean\<close> returns a non-finite point.
\<close>

theorem dehomogenization_unguarded:
  "ComputeGlobalBoundingBox c0 images_size Hs \<noteq> Fails e
   \<and> HomogeneousToEuclidean h \<noteq> Fails e
   \<and> (v2 (mat_vec H c) = 0 \<longrightarrow>
        corner_step c0 H c b =
          (if v0 (mat_vec H c) = 0 \<and> v1 (mat_vec H c) = 0 then Returns b else Undefined))
   \<and> (v2 h = 0 \<longrightarrow> HomogeneousToEuclidean h = NonFinite)"
  by (simp add: ComputeGlobalBoundingBox_def chain_loop_no_Fails corner_step_zero_w
      HomogeneousToEuclidean_def Let_def)

theorem dehomogenization_unguarded_witness:
  "corner_step ceil0 (Mat3 1 0 0  0 1 0  0 0 0) (Vec3 7 5 1) (7, 0, 5, 0) = Undefined
   \<and> corner_step ceil0 (Mat3 0 0 0  0 0 0  0 0 0) (Vec3 7 5 1) (7, 0, 5, 0) = Returns (7, 0, 5, 0)
   \<and> HomogeneousToEuclidean (Vec3 1 1 0) = NonFinite"
  using dehomogenization_unguarded [of ceil0 "(7, 5)" "[]" DegenerateProjection "Vec3 1 1 0"
      "Mat3 1 0 0  0 1 0  0 0 0" "Vec3 7 5 1" "(7, 0, 5, 0)"]
    dehomogenization_unguarded [of ceil0 "(7, 5)" "[]" DegenerateProjection "Vec3 1 1 0"
      "Mat3 0 0 0  0 0 0  0 0 0" "Vec3 7 5 1" "(7, 0, 5, 0)"]
  by simp

text \<open>
  Claim C8, as stated, fails. The zero matrix maps every corner to
  \<open>(0, 0, 0)\<close>; the division by the zero homogeneous coordinate is carried
  out, no \<open>DegenerateProjection\<close> is reported and the initial box is returned.
  \<^verbatim>\<open>HomogeneousToEuclidean\<close> at \<open>(1, 1, 0)\<close> reports nothing either.
\<close>

theorem zero_homogeneous_coordinate_counterexample:
  "v2 (mat_vec (mat_mul (Mat3 0 0 0  0 0 0  0 0 0) Identity) (Vec3 7 5 1)) = 0
   \<and> ComputeGlobalBoundingBox ceil0 (7, 5) [Mat3 0 0 0  0 0 0  0 0 0] = Returns (7, 0, 5, 0)
   \<and> ComputeGlobalBoundingBox ceil0 (7, 5) [Mat3 0 0 0  0 0 0  0 0 0] \<noteq> Fails DegenerateProjection
   \<and> HomogeneousToEuclidean (Vec3 1 1 0) \<noteq> Fails DegenerateProjection"
  by (simp add: ComputeGlobalBoundingBox_def q_bounds_def corner_step_def divide_double_def
      int_of_unsigned_def Identity_def HomogeneousToEuclidean_def)

section \<open>The order of the bounds of the box\<close>

text \<open>
  Claim C9 (xmin \<open>\<le>\<close> xmax and ymin \<open>\<le>\<close> ymax for every chain) does not hold
  of the code. The box starts as \<open>(W, 0, H, 0)\<close>, with the bounds inverted, and
  a corner updates the upper bound only when it does not lower the lower one
  (\<^verbatim>\<open>else if\<close>). The invertible homography below maps the corners of a
  \<open>10 \<times> 10\<close> image, in the order of the loop, to the abscissae 4, 3, 2, 1: each
  lowers xmin and xmax stays 0, so the returned box has xmin = 1 and xmax = 0.
\<close>

theorem ComputeGlobalBoundingBox_inverted_box:
  "ComputeGlobalBoundingBox ceil0 (10, 10) [Mat3 (- 3) 5 40  0 3 0  0 2 10] = Returns (1, 0, 0, 1)"
  by (simp add: ComputeGlobalBoundingBox_def q_bounds_def corner_step_def divide_double_def
      int_of_double_def int_of_unsigned_def Identity_def ceil0_def)

text \<open>With an empty chain the initial, inverted box is returned.\<close>

lemma ComputeGlobalBoundingBox_empty_chain:
  "ComputeGlobalBoundingBox c0 (w, h) [] = Returns (int_of_unsigned w, 0, int_of_unsigned h, 0)"
  by (simp add: ComputeGlobalBoundingBox_def)

section \<open>Matrix algebra and the factors of the decomposition\<close>

lemma mat_mul_assoc: "mat_mul (mat_mul A B) C = mat_mul A (mat_mul B C)"
  by (cases A; cases B; cases C) (simp add: algebra_simps)

lemma mat_mul_Identity_right: "mat_mul A Identity = A"
  by (cases A) (simp add: Identity_def)

lemma determinant_mat_mul: "determinant (mat_mul A B) = determinant A * determinant B"
  by (cases A; cases B) (simp add: algebra_simps)

lemma determinant_transpose3: "determinant (transpose3 A) = determinant A"
  by (cases A) (simp add: algebra_simps)

lemma determinant_Identity: "determinant Identity = 1"
  by (simp add: Identity_def)

lemma normalised_pair:
  assumes "s \<noteq> (0::real)" and "l = sqrt (c * c + s * s)"
  shows "(c / l) * (c / l) + (s / l) * (s / l) = 1" and "l \<noteq> 0" and "0 < l"
proof -
  have pos: "0 < c * c + s * s"
    using assms(1) by (simp add: sum_squares_gt_zero_iff)
  then show l: "0 < l" using assms(2) by simp
  then show "l \<noteq> 0" by simp
  have ll: "l * l = c * c + s * s"
    using pos assms(2) by simp
  have "(c / l) * (c / l) + (s / l) * (s / l) = (c * c + s * s) / (l * l)"
    by (simp add: add_divide_distrib)
  also have "\<dots> = (l * l) / (l * l)" by (simp only: ll)
  also have "\<dots> = 1" using l by simp
  finally show "(c / l) * (c / l) + (s / l) * (s / l) = 1" .
qed

lemma rot_x_orthogonal:
  assumes "c * c + s * s = (1::real)"
  shows "mat_mul (Mat3 1 0 0  0 c (- s)  0 s c) (transpose3 (Mat3 1 0 0  0 c (- s)  0 s c)) = Identity"
  using assms by (simp add: Identity_def algebra_simps)

lemma rot_y_orthogonal:
  assumes "c * c + s * s = (1::real)"
  shows "mat_mul (Mat3 c 0 s  0 1 0  (- s) 0 c) (transpose3 (Mat3 c 0 s  0 1 0  (- s) 0 c)) = Identity"
  using assms by (simp add: Identity_def algebra_simps)

lemma rotate_pair:
  assumes "mat_mul G (transpose3 G) = Identity"
  shows "mat_mul (mat_mul K G) (mat_mul (transpose3 G) Q) = mat_mul K Q"
proof -
  have "mat_mul (mat_mul K G) (mat_mul (transpose3 G) Q)
      = mat_mul K (mat_mul (mat_mul G (transpose3 G)) Q)"
    by (simp add: mat_mul_assoc)
  then show ?thesis by (simp add: assms mat_mul_Identity_left)
qed

lemma determinant_orthogonal_transpose:
  assumes "determinant G = 1"
  shows "determinant (mat_mul (transpose3 G) Q) = determinant Q"
  by (simp add: determinant_mat_mul determinant_transpose3 assms)

lemma set_K21_to_zero_props:
  assumes "set_K21_to_zero (K, Q) = (K', Q')"
  shows "mat_mul K' Q' = mat_mul K Q \<and> determinant Q' = determinant Q \<and> m21 K' = 0"
proof (cases "m21 K = 0")
  case True
  then show ?thesis using assms by (auto simp add: set_K21_to_zero_def)
next
  case False
  define l where "l = sqrt (- m22 K * - m22 K + m21 K * m21 K)"
  define c where "c = - m22 K / l"
  define s where "s = m21 K / l"
  define Qx where "Qx = Mat3 1 0 0  0 c (- s)  0 s c"
  have cs: "c * c + s * s = 1" and l: "l \<noteq> 0"
    using normalised_pair [OF False l_def] by (simp_all add: c_def s_def)
  have K': "K' = mat_mul K Qx" and Q': "Q' = mat_mul (transpose3 Qx) Q"
    using assms False
    by (simp_all add: set_K21_to_zero_def Let_def Qx_def c_def s_def l_def)
  have orth: "mat_mul Qx (transpose3 Qx) = Identity"
    unfolding Qx_def by (rule rot_x_orthogonal [OF cs])
  have det: "determinant Qx = 1"
    using cs by (simp add: Qx_def algebra_simps)
  have zero: "m21 K' = 0"
    unfolding K' Qx_def using l
    by (cases K) (simp add: c_def s_def)
  show ?thesis
    using rotate_pair [OF orth] determinant_orthogonal_transpose [OF det] zero
    by (simp add: K' Q')
qed

lemma set_K20_to_zero_props:
  assumes "set_K20_to_zero (K, Q) = (K', Q')"
  shows "mat_mul K' Q' = mat_mul K Q \<and> determinant Q' = determinant Q
       \<and> m20 K' = 0 \<and> m21 K' = m21 K"
proof (cases "m20 K = 0")
  case True
  then show ?thesis using assms by (auto simp add: set_K20_to_zero_def)
next
  case False
  define l where "l = sqrt (m22 K * m22 K + m20 K * m20 K)"
  define c where "c = m22 K / l"
  define s where "s = m20 K / l"
  define Qy where "Qy = Mat3 c 0 s  0 1 0  (- s) 0 c"
  have cs: "c * c + s * s = 1" and l: "l \<noteq> 0"
    using normalised_pair [OF False l_def] by (simp_all add: c_def s_def)
  have K': "K' = mat_mul K Qy" and Q': "Q' = mat_mul (transpose3 Qy) Q"
    using assms False
    by (simp_all add: set_K20_to_zero_def Let_def Qy_def c_def s_def l_def)
  have orth: "mat_mul Qy (transpose3 Qy) = Identity"
    unfolding Qy_def by (rule rot_y_orthogonal [OF cs])
  have det: "determinant Qy = 1"
    using cs by (simp add: Qy_def algebra_simps)
  have zero: "m20 K' = 0 \<and> m21 K' = m21 K"
    unfolding K' Qy_def using l
    by (cases K) (simp add: c_def s_def)
  show ?thesis
    using rotate_pair [OF orth] determinant_orthogonal_transpose [OF det] zero
    by (simp add: K' Q')
qed

lemma set_K10_to_zero_props:
  assumes "set_K10_to_zero (K, Q) = Returns (K', Q')"
  shows "K' = K" and "Q' = Q" and "m10 K = 0"
  using assms by (simp_all add: set_K10_to_zero_def split: if_splits)

lemma set_K10_to_zero_cases:
  "set_K10_to_zero KQ = Undefined \<or> set_K10_to_zero KQ = Returns KQ"
  by (cases KQ) (simp add: set_K10_to_zero_def)

text \<open>The pair after the three blocks, when the third one is not entered.\<close>

lemma rotations_props:
  assumes "set_K10_to_zero (set_K20_to_zero (set_K21_to_zero (M, Identity))) = Returns (K, Q)"
  shows "mat_mul K Q = M" and "determinant Q = 1"
    and "m10 K = 0" and "m20 K = 0" and "m21 K = 0"
proof -
  obtain K1 Q1 where s1: "set_K21_to_zero (M, Identity) = (K1, Q1)"
    by (cases "set_K21_to_zero (M, Identity)") auto
  obtain K2 Q2 where s2: "set_K20_to_zero (K1, Q1) = (K2, Q2)"
    by (cases "set_K20_to_zero (K1, Q1)") auto
  have s3: "set_K10_to_zero (K2, Q2) = Returns (K, Q)"
    using assms by (simp add: s1 s2)
  note p1 = set_K21_to_zero_props [OF s1]
  note p2 = set_K20_to_zero_props [OF s2]
  note p3 = set_K10_to_zero_props [OF s3]
  show "mat_mul K Q = M"
    using p1 p2 p3 by (simp add: mat_mul_Identity_right)
  show "determinant Q = 1"
    using p1 p2 p3 by (simp add: determinant_Identity)
  show "m10 K = 0" using p3 by simp
  show "m20 K = 0" using p2 p3 by simp
  show "m21 K = 0" using p1 p2 p3 by simp
qed

lemma mat_mul_neg_neg: "mat_mul (mat_neg A) (mat_neg B) = mat_mul A B"
  by (cases A; cases B) (simp add: mat_neg_def)

lemma determinant_neg: "determinant (mat_neg A) = - determinant A"
  by (cases A) (simp add: mat_neg_def algebra_simps)

lemma mat_neg_sel:
  "m00 (mat_neg A) = - m00 A" "m01 (mat_neg A) = - m01 A" "m02 (mat_neg A) = - m02 A"
  "m10 (mat_neg A) = - m10 A" "m11 (mat_neg A) = - m11 A" "m12 (mat_neg A) = - m12 A"
  "m20 (mat_neg A) = - m20 A" "m21 (mat_neg A) = - m21 A" "m22 (mat_neg A) = - m22 A"
  by (cases A, simp add: mat_neg_def)+

lemma negate_if_K22_negative_props:
  assumes "negate_if_K22_negative (K, R) = (K', R')"
    and "m10 K = 0" and "m20 K = 0" and "m21 K = 0"
  shows "mat_mul K' R' = mat_mul K R" and "\<bar>determinant R'\<bar> = \<bar>determinant R\<bar>"
    and "m10 K' = 0" and "m20 K' = 0" and "m21 K' = 0" and "0 \<le> m22 K'"
proof -
  have "mat_mul K' R' = mat_mul K R \<and> \<bar>determinant R'\<bar> = \<bar>determinant R\<bar>
      \<and> m10 K' = 0 \<and> m20 K' = 0 \<and> m21 K' = 0 \<and> 0 \<le> m22 K'"
  proof (cases "m22 K < 0")
    case True
    then have "K' = mat_neg K" and "R' = mat_neg R"
      using assms(1) by (simp_all add: negate_if_K22_negative_def)
    then show ?thesis
      using True assms(2-4) by (simp add: mat_mul_neg_neg determinant_neg mat_neg_sel)
  next
    case False
    then have "K' = K" and "R' = R"
      using assms(1) by (simp_all add: negate_if_K22_negative_def)
    then show ?thesis using False assms(2-4) by simp
  qed
  then show "mat_mul K' R' = mat_mul K R" and "\<bar>determinant R'\<bar> = \<bar>determinant R\<bar>"
    and "m10 K' = 0" and "m20 K' = 0" and "m21 K' = 0" and "0 \<le> m22 K'"
    by simp_all
qed

lemma flip_column1:
  "mat_mul K (Mat3 1 0 0  0 (- 1) 0  0 0 1) =
     Mat3 (m00 K) (- m01 K) (m02 K)  (m10 K) (- m11 K) (m12 K)  (m20 K) (- m21 K) (m22 K)"
  by (cases K) simp

lemma flip_column0:
  "mat_mul K (Mat3 (- 1) 0 0  0 1 0  0 0 1) =
     Mat3 (- m00 K) (m01 K) (m02 K)  (- m10 K) (m11 K) (m12 K)  (- m20 K) (m21 K) (m22 K)"
  by (cases K) simp

lemma flip_pair:
  assumes "mat_mul S S = Identity"
  shows "mat_mul (mat_mul K S) (mat_mul S R) = mat_mul K R"
proof -
  have "mat_mul (mat_mul K S) (mat_mul S R) = mat_mul K (mat_mul (mat_mul S S) R)"
    by (simp add: mat_mul_assoc)
  then show ?thesis by (simp add: assms mat_mul_Identity_left)
qed

lemma flip_if_K11_negative_props:
  assumes "flip_if_K11_negative (K, R) = (K', R')"
    and "m10 K = 0" and "m20 K = 0" and "m21 K = 0" and "0 \<le> m22 K"
  shows "mat_mul K' R' = mat_mul K R" and "\<bar>determinant R'\<bar> = \<bar>determinant R\<bar>"
    and "m10 K' = 0" and "m20 K' = 0" and "m21 K' = 0" and "0 \<le> m22 K'" and "0 \<le> m11 K'"
proof -
  define S where "S = Mat3 1 0 0  0 (- 1) 0  0 0 1"
  have SS: "mat_mul S S = Identity" and detS: "determinant S = - 1"
    by (simp_all add: S_def Identity_def)
  have "mat_mul K' R' = mat_mul K R \<and> \<bar>determinant R'\<bar> = \<bar>determinant R\<bar>
      \<and> m10 K' = 0 \<and> m20 K' = 0 \<and> m21 K' = 0 \<and> 0 \<le> m22 K' \<and> 0 \<le> m11 K'"
  proof (cases "m11 K < 0")
    case True
    then have K': "K' = mat_mul K S" and R': "R' = mat_mul S R"
      using assms(1) by (simp_all add: flip_if_K11_negative_def S_def Let_def)
    have "K' = Mat3 (m00 K) (- m01 K) (m02 K)  (m10 K) (- m11 K) (m12 K)  (m20 K) (- m21 K) (m22 K)"
      unfolding K' S_def by (rule flip_column1)
    then show ?thesis
      using True assms(2-5) flip_pair [OF SS, of K R]
      by (simp add: K' R' determinant_mat_mul detS)
  next
    case False
    then have "K' = K" and "R' = R"
      using assms(1) by (simp_all add: flip_if_K11_negative_def)
    then show ?thesis using False assms(2-5) by simp
  qed
  then show "mat_mul K' R' = mat_mul K R" and "\<bar>determinant R'\<bar> = \<bar>determinant R\<bar>"
    and "m10 K' = 0" and "m20 K' = 0" and "m21 K' = 0" and "0 \<le> m22 K'" and "0 \<le> m11 K'"
    by simp_all
qed

lemma flip_if_K00_negative_props:
  assumes "flip_if_K00_negative (K, R) = (K', R')"
    and "m10 K = 0" and "m20 K = 0" and "m21 K = 0" and "0 \<le> m22 K" and "0 \<le> m11 K"
  shows "mat_mul K' R' = mat_mul K R" and "\<bar>determinant R'\<bar> = \<bar>determinant R\<bar>"
    and "m10 K' = 0" and "m20 K' = 0" and "m21 K' = 0" and "0 \<le> m22 K'" and "0 \<le> m11 K'"
    and "0 \<le> m00 K'"
proof -
  define S where "S = Mat3 (- 1) 0 0  0 1 0  0 0 1"
  have SS: "mat_mul S S = Identity" and detS: "determinant S = - 1"
    by (simp_all add: S_def Identity_def)
  have "mat_mul K' R' = mat_mul K R \<and> \<bar>determinant R'\<bar> = \<bar>determinant R\<bar>
      \<and> m10 K' = 0 \<and> m20 K' = 0 \<and> m21 K' = 0 \<and> 0 \<le> m22 K' \<and> 0 \<le> m11 K' \<and> 0 \<le> m00 K'"
  proof (cases "m00 K < 0")
    case True
    then have K': "K' = mat_mul K S" and R': "R' = mat_mul S R"
      using assms(1) by (simp_all add: flip_if_K00_negative_def S_def Let_def)
    have "K' = Mat3 (- m00 K) (m01 K) (m02 K)  (- m10 K) (m11 K) (m12 K)  (- m20 K) (m21 K) (m22 K)"
      unfolding K' S_def by (rule flip_column0)
    then show ?thesis
      using True assms(2-6) flip_pair [OF SS, of K R]
      by (simp add: K' R' determinant_mat_mul detS)
  next
    case False
    then have "K' = K" and "R' = R"
      using assms(1) by (simp_all add: flip_if_K00_negative_def)
    then show ?thesis using False assms(2-6) by simp
  qed
  then show "mat_mul K' R' = mat_mul K R" and "\<bar>determinant R'\<bar> = \<bar>determinant R\<bar>"
    and "m10 K' = 0" and "m20 K' = 0" and "m21 K' = 0" and "0 \<le> m22 K'" and "0 \<le> m11 K'"
    and "0 \<le> m00 K'"
    by simp_all
qed

lemma rq_factors_cases:
  "rq_factors M = Undefined \<or> (\<exists>K R. rq_factors M = Returns (K, R))"
  using set_K10_to_zero_cases [of "set_K20_to_zero (set_K21_to_zero (M, Identity))"]
  by (auto simp add: rq_factors_def)

lemma rq_factors_props:
  assumes "rq_factors M = Returns (K, R)"
  shows "mat_mul K R = M" and "\<bar>determinant R\<bar> = 1"
    and "m10 K = 0" and "m20 K = 0" and "m21 K = 0"
    and "0 \<le> m00 K" and "0 \<le> m11 K" and "0 \<le> m22 K"
proof -
  obtain K1 Q1 where s1:
      "set_K10_to_zero (set_K20_to_zero (set_K21_to_zero (M, Identity))) = Returns (K1, Q1)"
    using assms set_K10_to_zero_cases [of "set_K20_to_zero (set_K21_to_zero (M, Identity))"]
    by (cases "set_K20_to_zero (set_K21_to_zero (M, Identity))") (auto simp add: rq_factors_def)
  obtain K2 R2 where s2: "negate_if_K22_negative (K1, Q1) = (K2, R2)"
    by (cases "negate_if_K22_negative (K1, Q1)") auto
  obtain K3 R3 where s3: "flip_if_K11_negative (K2, R2) = (K3, R3)"
    by (cases "flip_if_K11_negative (K2, R2)") auto
  have s4: "flip_if_K00_negative (K3, R3) = (K, R)"
    using assms by (simp add: rq_factors_def s1 s2 s3)
  note p1 = rotations_props [OF s1]
  note p2 = negate_if_K22_negative_props [OF s2 p1(3,4,5)]
  note p3 = flip_if_K11_negative_props [OF s3 p2(3,4,5,6)]
  note p4 = flip_if_K00_negative_props [OF s4 p3(3,4,5,6,7)]
  show "mat_mul K R = M" using p1(1) p2(1) p3(1) p4(1) by simp
  show "\<bar>determinant R\<bar> = 1" using p1(2) p2(2) p3(2) p4(2) by simp
  show "m10 K = 0" "m20 K = 0" "m21 K = 0" "0 \<le> m00 K" "0 \<le> m11 K" "0 \<le> m22 K"
    using p4 by simp_all
qed

lemma determinant_upper_triangular:
  assumes "m10 K = 0" and "m20 K = 0" and "m21 K = 0"
  shows "determinant K = m00 K * m11 K * m22 K"
  using assms by (cases K) simp

lemma mat_mul_adjugate: "mat_mul A (adjugate A) = mat_scale (determinant A) Identity"
  by (cases A) (simp add: Identity_def algebra_simps)

lemma mat_vec_mat_mul: "mat_vec (mat_mul A B) v = mat_vec A (mat_vec B v)"
  by (cases A; cases B; cases v) (simp add: algebra_simps)

lemma mat_vec_scale: "mat_vec (mat_scale c A) v = vec_scale c (mat_vec A v)"
  by (cases A; cases v) (simp add: algebra_simps)

lemma mat_vec_vec_scale: "mat_vec A (vec_scale c v) = vec_scale c (mat_vec A v)"
  by (cases A; cases v) (simp add: algebra_simps)

lemma mat_mul_scale_left: "mat_mul (mat_scale c A) B = mat_scale c (mat_mul A B)"
  by (cases A; cases B) (simp add: algebra_simps)

lemma mat_mul_scale_right: "mat_mul A (mat_scale c B) = mat_scale c (mat_mul A B)"
  by (cases A; cases B) (simp add: algebra_simps)

lemma vec_scale_vec_scale: "vec_scale a (vec_scale b v) = vec_scale (a * b) v"
  by (cases v) simp

lemma vec_scale_one: "vec_scale 1 v = v"
  by (cases v) simp

lemma mat_scale_sel:
  "m00 (mat_scale c A) = c * m00 A" "m11 (mat_scale c A) = c * m11 A"
  "m22 (mat_scale c A) = c * m22 A" "m10 (mat_scale c A) = c * m10 A"
  "m20 (mat_scale c A) = c * m20 A" "m21 (mat_scale c A) = c * m21 A"
  by (cases A, simp)+

lemma mat_vec_inverse:
  assumes "determinant A \<noteq> 0"
  shows "mat_vec A (mat_vec (mat_scale (1 / determinant A) (adjugate A)) p) = p"
proof -
  have "mat_vec A (mat_vec (mat_scale (1 / determinant A) (adjugate A)) p)
      = vec_scale (1 / determinant A) (mat_vec (mat_mul A (adjugate A)) p)"
    by (simp add: mat_vec_scale mat_vec_vec_scale mat_vec_mat_mul)
  also have "\<dots> = vec_scale (1 / determinant A) (vec_scale (determinant A) p)"
    by (simp add: mat_mul_adjugate mat_vec_scale mat_vec_Identity)
  also have "\<dots> = p"
    using assms by (simp add: vec_scale_vec_scale vec_scale_one)
  finally show ?thesis .
qed

text \<open>What \<open>KRt_From_P\<close> returns when the block is invertible and the third
  block is not entered.\<close>

lemma KRt_From_P_regular:
  assumes "determinant (block33 P) \<noteq> 0" and "rq_factors (block33 P) = Returns (K, R)"
  shows "0 < m00 K" and "0 < m11 K" and "0 < m22 K" and "determinant K \<noteq> 0"
    and "determinant R = sgn (determinant (block33 P))"
    and "KRt_From_P P =
      Returns (mat_scale (1 / m22 K) K, R,
               mat_vec (mat_scale (1 / determinant K) (adjugate K)) (col3 P))"
proof -
  note f = rq_factors_props [OF assms(2)]
  have detK: "determinant K = m00 K * m11 K * m22 K"
    by (rule determinant_upper_triangular [OF f(3,4,5)])
  have prod: "determinant (block33 P) = determinant K * determinant R"
    using f(1) determinant_mat_mul [of K R] by simp
  show nz: "determinant K \<noteq> 0"
    using assms(1) prod by auto
  then have "m00 K \<noteq> 0" and "m11 K \<noteq> 0" and "m22 K \<noteq> 0"
    using detK by auto
  then show pos: "0 < m00 K" "0 < m11 K" "0 < m22 K"
    using f(6,7,8) by simp_all
  then have dpos: "0 < determinant K"
    using detK by simp
  have "determinant R = 1 \<or> determinant R = - 1"
    using f(2) by (simp add: abs_if split: if_splits)
  then show "determinant R = sgn (determinant (block33 P))"
    using dpos prod by (auto simp add: sgn_if zero_less_mult_iff mult_less_0_iff)
  show "KRt_From_P P =
      Returns (mat_scale (1 / m22 K) K, R,
               mat_vec (mat_scale (1 / determinant K) (adjugate K)) (col3 P))"
    using nz pos(3) by (simp add: KRt_From_P_def assms(2) inverse3_def mat_divide_def Let_def)
qed

lemmas KRt_defs = KRt_From_P_def rq_factors_def set_K21_to_zero_def set_K20_to_zero_def
  set_K10_to_zero_def negate_if_K22_negative_def flip_if_K11_negative_def flip_if_K00_negative_def
  inverse3_def mat_divide_def mat_neg_def Identity_def

section \<open>Composition after decomposition\<close>

lemma KRt_From_P_Returns:
  assumes "KRt_From_P P = Returns (K', R, t)"
  shows "\<exists>K. rq_factors (block33 P) = Returns (K, R)"
proof -
  from rq_factors_cases [of "block33 P"] show ?thesis
  proof
    assume "rq_factors (block33 P) = Undefined"
    then show ?thesis using assms by (simp add: KRt_From_P_def)
  next
    assume "\<exists>K R. rq_factors (block33 P) = Returns (K, R)"
    then obtain K R0 where KR: "rq_factors (block33 P) = Returns (K, R0)" by blast
    have "R0 = R"
      using assms
      by (auto simp add: KRt_From_P_def KR Let_def inverse3_def mat_divide_def
          split: if_splits)
    then show ?thesis using KR by blast
  qed
qed

text \<open>When the decomposition of a matrix with an invertible block returns,
  the composition of the returned factors is the matrix up to the positive
  factor \<open>1 / K(2,2)\<close>, with \<open>K(2,2)\<close> taken before the final scaling.\<close>

lemma P_From_KRt_of_returned_factors:
  assumes "determinant (block33 P) \<noteq> 0" and "KRt_From_P P = Returns (K', R, t)"
  shows "\<exists>c. 0 < c \<and> P_From_KRt K' R t = mat34_scale c P"
proof -
  obtain K where KR: "rq_factors (block33 P) = Returns (K, R)"
    using KRt_From_P_Returns [OF assms(2)] by blast
  note r = KRt_From_P_regular [OF assms(1) KR]
  note f = rq_factors_props [OF KR]
  have K': "K' = mat_scale (1 / m22 K) K"
    and t: "t = mat_vec (mat_scale (1 / determinant K) (adjugate K)) (col3 P)"
    using r(6) assms(2) by simp_all
  have "mat_mul (mat_scale (1 / m22 K) K) R = mat_scale (1 / m22 K) (block33 P)"
    by (simp add: mat_mul_scale_left f(1))
  moreover have "mat_vec (mat_scale (1 / m22 K) K) t = vec_scale (1 / m22 K) (col3 P)"
  proof -
    have "mat_vec K t = col3 P"
      unfolding t by (rule mat_vec_inverse [OF r(4)])
    then show ?thesis by (simp only: mat_vec_scale)
  qed
  ultimately have "P_From_KRt K' R t = mat34_scale (1 / m22 K) P"
    unfolding K' by (cases P) (simp add: P_From_KRt_def)
  moreover have "0 < 1 / m22 K" using r(3) by simp
  ultimately show ?thesis by blast
qed

text \<open>The decomposition has no defined behaviour when the third block is
  entered.\<close>

lemma KRt_From_P_third_block:
  assumes "m10 (fst (set_K20_to_zero (set_K21_to_zero (block33 P, Identity)))) \<noteq> 0"
  shows "KRt_From_P P = Undefined"
  using assms
  by (cases "set_K20_to_zero (set_K21_to_zero (block33 P, Identity))")
     (simp add: KRt_From_P_def rq_factors_def set_K10_to_zero_def)

text \<open>
  Claim C2 (for every projection matrix \<open>P\<close> whose leading \<open>3 \<times> 3\<close> block is
  non-singular, \<^verbatim>\<open>P_From_KRt\<close> of the factors returned by \<^verbatim>\<open>KRt_From_P\<close> is
  \<open>P\<close> up to a uniform scale factor) does not hold of the code. It holds
  whenever \<^verbatim>\<open>KRt_From_P\<close> returns, as shown above, but the function does not
  return for every such \<open>P\<close>: the block "Set K(1,0) to zero" writes its
  rotation into \<^verbatim>\<open>Mat Qz;\<close>, which is declared without a size, where the two
  blocks before it declare \<^verbatim>\<open>Mat Qx(3,3)\<close> and \<^verbatim>\<open>Mat Qy(3,3)\<close>. For the
  block with the rows \<open>(1, 0, 0)\<close>, \<open>(3, 4, 0)\<close>, \<open>(0, 0, 1)\<close>, of determinant
  \<open>4\<close>, the first two blocks are skipped, \<open>K(1,0) = 3\<close> enters the third one,
  and the run has no defined behaviour: no factors are returned.
\<close>

theorem KRt_From_P_unsized_Qz:
  "determinant (block33 (Mat34 (Mat3 1 0 0  3 4 0  0 0 1) (Vec3 0 0 0))) = 4
   \<and> KRt_From_P (Mat34 (Mat3 1 0 0  3 4 0  0 0 1) (Vec3 0 0 0)) = Undefined"
  by (simp add: KRt_defs)

section \<open>The sign conventions of the decomposition\<close>

text \<open>
  When the decomposition of a matrix with an invertible block \<open>M\<close> returns,
  the returned \<open>K\<close> is upper triangular with \<open>K(2,2) = 1\<close> and a positive
  diagonal, and the determinant of the returned \<open>R\<close> is the sign of the
  determinant of \<open>M\<close>.
\<close>

lemma KRt_From_P_invariants:
  assumes "determinant (block33 P) \<noteq> 0" and "KRt_From_P P = Returns (K', R, t)"
  shows "m22 K' = 1" and "0 < m00 K'" and "0 < m11 K'"
    and "m10 K' = 0" and "m20 K' = 0" and "m21 K' = 0"
    and "determinant R = sgn (determinant (block33 P))"
proof -
  obtain K where KR: "rq_factors (block33 P) = Returns (K, R)"
    using KRt_From_P_Returns [OF assms(2)] by blast
  note r = KRt_From_P_regular [OF assms(1) KR]
  note f = rq_factors_props [OF KR]
  have K': "K' = mat_scale (1 / m22 K) K"
    using r(6) assms(2) by simp
  show "m22 K' = 1" and "0 < m00 K'" and "0 < m11 K'"
    and "m10 K' = 0" and "m20 K' = 0" and "m21 K' = 0"
    using r(1,2,3) f(3,4,5) by (simp_all add: K' mat_scale_sel)
  show "determinant R = sgn (determinant (block33 P))"
    by (rule r(5))
qed

text \<open>
  Claim C1 (\<open>K(2,2) = 1\<close>, \<open>K(0,0) > 0\<close>, \<open>K(1,1) > 0\<close> and \<open>det R = +1\<close> for
  every \<open>P\<close> with a non-singular block) does not hold of the code where the
  determinant of the block is negative. For the block \<open>diag(1, 1, -1)\<close>
  no rotation is applied, the three sign tests each fire once, and the
  function returns \<open>K\<close> the identity and \<open>R = diag(1, 1, -1)\<close>, whose
  determinant is \<open>-1\<close>.
\<close>

theorem KRt_From_P_reflection:
  "determinant (block33 (Mat34 (Mat3 1 0 0  0 1 0  0 0 (- 1)) (Vec3 0 0 0))) \<noteq> 0
   \<and> KRt_From_P (Mat34 (Mat3 1 0 0  0 1 0  0 0 (- 1)) (Vec3 0 0 0))
       = Returns (Mat3 1 0 0  0 1 0  0 0 1, Mat3 1 0 0  0 1 0  0 0 (- 1), Vec3 0 0 0)
   \<and> determinant (Mat3 1 0 0  0 1 0  0 0 (- 1)) = - 1"
  by (simp add: KRt_defs)

section \<open>Decomposition of a projection matrix with a singular block\<close>

text \<open>
  Claim C7, as amended. For every projection matrix \<open>P\<close> whose leading
  \<open>3 \<times> 3\<close> block is singular, \<^verbatim>\<open>KRt_From_P\<close> does not fail with
  \<open>SingularCalibration\<close>: it reports no error at all.
\<close>

theorem KRt_From_P_singular_no_error:
  assumes "determinant (block33 P) = 0"
  shows "KRt_From_P P \<noteq> Fails e"
proof -
  from rq_factors_cases [of "block33 P"] show ?thesis
  proof
    assume "rq_factors (block33 P) = Undefined"
    then show ?thesis by (simp add: KRt_From_P_def)
  next
    assume "\<exists>K R. rq_factors (block33 P) = Returns (K, R)"
    then obtain K R where KR: "rq_factors (block33 P) = Returns (K, R)" by blast
    show ?thesis
      by (simp add: KRt_From_P_def KR Let_def inverse3_def mat_divide_def)
  qed
qed

theorem KRt_From_P_singular_no_error_witness:
  "determinant (block33 (Mat34 (Mat3 1 2 3  0 0 5  0 0 1) (Vec3 1 1 1))) = 0
   \<and> KRt_From_P (Mat34 (Mat3 1 2 3  0 0 5  0 0 1) (Vec3 1 1 1)) \<noteq> Fails SingularCalibration"
  using KRt_From_P_singular_no_error [of "Mat34 (Mat3 1 2 3  0 0 5  0 0 1) (Vec3 1 1 1)"
      SingularCalibration]
  by simp

text \<open>
  Claim C7, as stated, fails: for the singular block \<open>diag(1, 1, 0)\<close> the
  function does not fail with \<open>SingularCalibration\<close>.
\<close>

theorem KRt_From_P_singular_counterexample:
  "determinant (block33 (Mat34 (Mat3 1 0 0  0 1 0  0 0 0) (Vec3 1 2 3))) = 0
   \<and> KRt_From_P (Mat34 (Mat3 1 0 0  0 1 0  0 0 0) (Vec3 1 2 3)) = NonFinite
   \<and> KRt_From_P (Mat34 (Mat3 1 0 0  0 1 0  0 0 0) (Vec3 1 2 3)) \<noteq> Fails SingularCalibration"
  by (simp add: KRt_defs)

section \<open>Adjacent pairs with too few correspondences\<close>

lemma pairs_with_at_least_Cons:
  "pairs_with_at_least k points (prev # cur # rest) =
     (if k \<le> length (fst (points prev cur)) then [(prev, cur)] else [])
     @ pairs_with_at_least k points (cur # rest)"
  by (simp add: pairs_with_at_least_def)

lemma pairs_with_at_least_single: "pairs_with_at_least k points [prev] = []"
  by (simp add: pairs_with_at_least_def)

text \<open>The loops are the chain of the estimates on the pairs with enough
  correspondences: a short pair changes neither the chain nor the matrix that
  the next call of the estimator receives.\<close>

lemma affine_loop_chain:
  "affine_loop points estimate op me prev rest A As =
     chain_of_estimates points estimate op me (pairs_with_at_least 2 points (prev # rest)) A As"
proof (induction rest arbitrary: prev A As)
  case Nil
  show ?case by (simp add: pairs_with_at_least_single)
next
  case (Cons cur rest)
  show ?case
    by (simp add: Let_def Cons.IH pairs_with_at_least_Cons)
qed

lemma homography_loop_chain:
  "homography_loop points estimate op me prev rest H Hs =
     chain_of_estimates points estimate op me (pairs_with_at_least 4 points (prev # rest)) H Hs"
proof (induction rest arbitrary: prev H Hs)
  case Nil
  show ?case by (simp add: pairs_with_at_least_single)
next
  case (Cons cur rest)
  show ?case
    by (simp add: Let_def Cons.IH pairs_with_at_least_Cons)
qed

lemma chain_of_estimates_length:
  "length (chain_of_estimates points estimate op me pairs A As) = length As + length pairs"
  by (induction pairs arbitrary: A As) (auto simp add: Let_def)

lemma chain_of_estimates_prefix:
  "take (length As) (chain_of_estimates points estimate op me pairs A As) = As"
proof (induction pairs arbitrary: A As)
  case Nil
  show ?case by simp
next
  case (Cons ab pairs)
  obtain a b where ab: "ab = (a, b)" by (cases ab) auto
  have "take (length As) (chain_of_estimates points estimate op me pairs A' (As @ [A'])) = As"
    for A'
  proof -
    have "take (length As) (take (length (As @ [A']))
            (chain_of_estimates points estimate op me pairs A' (As @ [A']))) = As"
      by (simp only: Cons.IH) simp
    then show ?thesis by (simp add: min_def)
  qed
  then show ?case
    by (simp add: ab Let_def)
qed

text \<open>
  Claim C6, as amended. \<^verbatim>\<open>ComputeRelativeAffineMatrices\<close> and
  \<^verbatim>\<open>ComputeRelativeHomographyMatrices\<close> report no error. An adjacent pair
  whose number of correspondences is below the minimal sample size \<open>k\<close>
  (\<open>k = 2\<close> for affine, \<open>k = 4\<close> for homography) is skipped and contributes
  nothing: what the functions return is exactly the chain obtained by calling
  the estimator, in order, on the adjacent pairs with at least \<open>k\<close>
  correspondences and on no other pair, each call receiving the matrix stored
  by the call before it. The transforms already in the output vector are kept
  in front, and one transform is appended for each such pair.
\<close>

theorem short_pairs_are_skipped:
  assumes "images \<noteq> []"
  shows "ComputeRelativeAffineMatrices points estimate A0 images As op me
           = Returns (chain_of_estimates points estimate op me
                        (pairs_with_at_least 2 points images) A0 As)
    \<and> take (length As) (chain_of_estimates points estimate op me
                        (pairs_with_at_least 2 points images) A0 As) = As
    \<and> length (chain_of_estimates points estimate op me
                        (pairs_with_at_least 2 points images) A0 As)
         = length As + length (pairs_with_at_least 2 points images)
    \<and> ComputeRelativeHomographyMatrices points estimate H0 images Hs op me
           = Returns (chain_of_estimates points estimate op me
                        (pairs_with_at_least 4 points images) H0 Hs)
    \<and> take (length Hs) (chain_of_estimates points estimate op me
                        (pairs_with_at_least 4 points images) H0 Hs) = Hs
    \<and> length (chain_of_estimates points estimate op me
                        (pairs_with_at_least 4 points images) H0 Hs)
         = length Hs + length (pairs_with_at_least 4 points images)"
proof -
  obtain first rest where im: "images = first # rest"
    using assms by (cases images) auto
  show ?thesis
    by (simp add: im ComputeRelativeAffineMatrices_def ComputeRelativeHomographyMatrices_def
        affine_loop_chain homography_loop_chain chain_of_estimates_length
        chain_of_estimates_prefix)
qed

text \<open>With the images 1, 2, 3, one correspondence between 1 and 2 and four
  between 2 and 3, the estimator is applied once, to the identity.\<close>

theorem short_pairs_are_skipped_witness:
  "ComputeRelativeAffineMatrices one_then_four doubling_estimator Identity
        [1, 2, 3] [] (1 / 100) 1 = Returns [Mat3 2 0 0  0 2 0  0 0 2]
   \<and> ComputeRelativeHomographyMatrices one_then_four doubling_estimator Identity
        [1, 2, 3] [] (1 / 100) 1 = Returns [Mat3 2 0 0  0 2 0  0 0 2]"
  using short_pairs_are_skipped [of "[1, 2, 3]" one_then_four doubling_estimator
      Identity "[]" "1 / 100" 1 Identity "[]"]
  by (simp add: pairs_with_at_least_def one_then_four_def one_correspondence_def
      four_correspondences_def doubling_estimator_def Identity_def)

text \<open>
  Claim C6, as stated, fails: with one correspondence between the two images
  the affine loop returns an empty chain and reports nothing; so does the
  homography loop with three correspondences.
\<close>

theorem insufficient_correspondences_counterexample:
  "length (fst (one_correspondence 1 2)) = 1
   \<and> ComputeRelativeAffineMatrices one_correspondence identity_estimator Identity
        [1, 2] [] (1 / 100) 1 = Returns []
   \<and> ComputeRelativeAffineMatrices one_correspondence identity_estimator Identity
        [1, 2] [] (1 / 100) 1 \<noteq> Fails InsufficientCorrespondences
   \<and> length (fst (three_correspondences 1 2)) = 3
   \<and> ComputeRelativeHomographyMatrices three_correspondences identity_estimator Identity
        [1, 2] [] (1 / 100) 1 = Returns []
   \<and> ComputeRelativeHomographyMatrices three_correspondences identity_estimator Identity
        [1, 2] [] (1 / 100) 1 \<noteq> Fails InsufficientCorrespondences"
  by (simp add: ComputeRelativeAffineMatrices_def ComputeRelativeHomographyMatrices_def
      one_correspondence_def three_correspondences_def)

section \<open>The singular values of the parameterized matrix\<close>

lemma toRotationMatrix_orthogonal:
  assumes "quaternion_norm2 q = 1"
  shows "mat_mul (transpose3 (toRotationMatrix q)) (toRotationMatrix q) = Identity"
proof (cases q)
  case (Quaternion x y z w)
  have n: "x * x + y * y + z * z + w * w = 1"
    using assms by (simp add: quaternion_norm2_def Quaternion)
  show ?thesis
    unfolding Quaternion
    apply (simp add: Identity_def Let_def)
    using n apply (intro conjI)
    by algebra+
qed

lemma toRotationMatrix_orthogonal':
  assumes "quaternion_norm2 q = 1"
  shows "mat_mul (toRotationMatrix q) (transpose3 (toRotationMatrix q)) = Identity"
proof (cases q)
  case (Quaternion x y z w)
  have n: "x * x + y * y + z * z + w * w = 1"
    using assms by (simp add: quaternion_norm2_def Quaternion)
  show ?thesis
    unfolding Quaternion
    apply (simp add: Identity_def Let_def)
    using n apply (intro conjI)
    by algebra+
qed

lemma transpose3_mat_mul: "transpose3 (mat_mul A B) = mat_mul (transpose3 B) (transpose3 A)"
  by (cases A; cases B) (simp add: algebra_simps)

lemma trace3_mat_mul_commute: "trace3 (mat_mul A B) = trace3 (mat_mul B A)"
  by (cases A; cases B) (simp add: algebra_simps)

lemma principal_minors_trace:
  "principal_minors M = ((trace3 M)\<^sup>2 - trace3 (mat_mul M M)) / 2"
  by (cases M) (simp add: power2_eq_square algebra_simps)

lemma conjugate_invariants:
  assumes "mat_mul V (transpose3 V) = Identity"
  shows "trace3 (mat_mul (mat_mul (transpose3 V) D) V) = trace3 D"
    and "principal_minors (mat_mul (mat_mul (transpose3 V) D) V) = principal_minors D"
    and "determinant (mat_mul (mat_mul (transpose3 V) D) V) = determinant D * (determinant V)\<^sup>2"
proof -
  let ?C = "mat_mul (mat_mul (transpose3 V) D) V"
  have tr: "trace3 (mat_mul (mat_mul (transpose3 V) E) V) = trace3 E" for E
  proof -
    have "trace3 (mat_mul (mat_mul (transpose3 V) E) V)
        = trace3 (mat_mul V (mat_mul (transpose3 V) E))"
      by (rule trace3_mat_mul_commute)
    also have "\<dots> = trace3 (mat_mul (mat_mul V (transpose3 V)) E)"
      by (simp add: mat_mul_assoc)
    finally show ?thesis by (simp add: assms mat_mul_Identity_left)
  qed
  show "trace3 ?C = trace3 D" by (rule tr)
  have "mat_mul ?C ?C
      = mat_mul (mat_mul (transpose3 V) (mat_mul D (mat_mul (mat_mul V (transpose3 V)) D))) V"
    by (simp add: mat_mul_assoc)
  then have sq: "mat_mul ?C ?C = mat_mul (mat_mul (transpose3 V) (mat_mul D D)) V"
    by (simp add: assms mat_mul_Identity_left)
  show "principal_minors ?C = principal_minors D"
    by (simp add: principal_minors_trace sq tr)
  show "determinant ?C = determinant D * (determinant V)\<^sup>2"
    by (simp add: determinant_mat_mul determinant_transpose3 power2_eq_square)
qed

lemma To_unit_quaternions:
  assumes "quaternion_norm2 (p_u p) = 1" and "quaternion_norm2 (p_vt p) = 1"
  shows "has_singular_values (To p) 1 (1 / (1 + p_s p * p_s p)) 0"
    and "0 < 1 / (1 + p_s p * p_s p)" and "1 / (1 + p_s p * p_s p) \<le> 1"
proof -
  define s where "s = 1 / (1 + p_s p * p_s p)"
  define S where "S = Mat3 1 0 0  0 s 0  0 0 0"
  define U where "U = toRotationMatrix (p_u p)"
  define V where "V = toRotationMatrix (p_vt p)"
  have den: "1 \<le> 1 + p_s p * p_s p" by simp
  then have dpos: "0 < 1 + p_s p * p_s p" by linarith
  then show spos: "0 < 1 / (1 + p_s p * p_s p)" by simp
  show sle: "1 / (1 + p_s p * p_s p) \<le> 1" using den dpos by simp
  have F: "To p = mat_mul (mat_mul U S) V"
    by (simp add: To_def Let_def U_def V_def S_def s_def)
  have UU: "mat_mul (transpose3 U) U = Identity"
    unfolding U_def by (rule toRotationMatrix_orthogonal [OF assms(1)])
  have VV: "mat_mul V (transpose3 V) = Identity"
    unfolding V_def by (rule toRotationMatrix_orthogonal' [OF assms(2)])
  have St: "transpose3 S = S" by (simp add: S_def)
  have "gram (To p) = mat_mul (mat_mul (transpose3 V) (mat_mul S (mat_mul (mat_mul (transpose3 U) U) S))) V"
    by (simp add: gram_def F transpose3_mat_mul St mat_mul_assoc)
  then have g: "gram (To p) = mat_mul (mat_mul (transpose3 V) (mat_mul S S)) V"
    by (simp add: UU mat_mul_Identity_left)
  note inv = conjugate_invariants [OF VV, of "mat_mul S S"]
  have "has_singular_values (To p) 1 s 0"
    unfolding has_singular_values_def g inv
    using spos sle by (simp add: S_def s_def power2_eq_square)
  then show "has_singular_values (To p) 1 (1 / (1 + p_s p * p_s p)) 0"
    by (simp add: s_def)
qed

lemma To_rank_deficient: "determinant (To p) = 0"
  by (simp add: To_def Let_def determinant_mat_mul)

text \<open>
  Claim C4 (for every parameter vector \<open>p\<close> the matrix returned by \<^verbatim>\<open>To\<close>
  has the singular values \<open>(1, \<sigma>, 0)\<close> with \<open>\<sigma> = 1 / (1 + p[4]\<^sup>2)\<close>, the
  second one positive) holds when both quaternions of \<open>p\<close> have norm 1, as
  shown above, but not for every \<open>p\<close>: \<^verbatim>\<open>To\<close> does not normalise the
  quaternions, and \<^verbatim>\<open>toRotationMatrix\<close> of a quaternion that is not a unit
  quaternion is not a rotation. For \<open>u = (1/2, 1/2, 0, 0)\<close>, \<open>p[4] = 0\<close> and
  \<open>vt = (0, 0, 0, 1)\<close> the result has rank 1: its singular values are
  \<open>(1, 0, 0)\<close> and not \<open>(1, 1, 0)\<close>.
\<close>

theorem To_not_rank2:
  "To (Parameters (Quaternion (1/2) (1/2) 0 0) 0 (Quaternion 0 0 0 1))
     = Mat3 (1/2) (1/2) 0  (1/2) (1/2) 0  0 0 0
   \<and> has_singular_values (To (Parameters (Quaternion (1/2) (1/2) 0 0) 0 (Quaternion 0 0 0 1))) 1 0 0
   \<and> \<not> has_singular_values (To (Parameters (Quaternion (1/2) (1/2) 0 0) 0 (Quaternion 0 0 0 1)))
         1 (1 / (1 + 0 * 0)) 0"
  by (simp add: To_def has_singular_values_def gram_def Let_def)

section \<open>From parameters to the matrix and back\<close>

lemma normalize_unit:
  assumes "quaternion_norm2 q = 1"
  shows "normalize q = Returns q"
  using assms by (cases q) (simp add: normalize_def)

lemma mat_scale_mat_scale: "mat_scale a (mat_scale b A) = mat_scale (a * b) A"
  by (cases A) simp

lemma mat_neg_scale: "mat_neg A = mat_scale (- 1) A"
  by (simp add: mat_neg_def)

lemma diag3_scale: "mat_scale c (diag3 a b d) = diag3 (c * a) (c * b) (c * d)"
  by (simp add: diag3_def)

text \<open>The parameters stored by From and the matrix rebuilt from them.\<close>

lemma To_From:
  assumes svd: "svd f = (U, Vec3 s1 s2 s3, V)"
    and order: "s2 \<le> s1" "0 < s2"
    and qu: "quaternion_norm2 (quaternion_of_matrix (if determinant U > 0 then U else mat_neg U)) = 1"
            "toRotationMatrix (quaternion_of_matrix (if determinant U > 0 then U else mat_neg U))
               = (if determinant U > 0 then U else mat_neg U)"
    and qv: "quaternion_norm2 (quaternion_of_matrix
               (if determinant V > 0 then transpose3 V else mat_neg (transpose3 V))) = 1"
            "toRotationMatrix (quaternion_of_matrix
               (if determinant V > 0 then transpose3 V else mat_neg (transpose3 V)))
               = (if determinant V > 0 then transpose3 V else mat_neg (transpose3 V))"
  shows "\<exists>p c. From svd quaternion_of_matrix f = Returns p \<and> c \<noteq> 0
           \<and> To p = mat_scale c (mat_mul (mat_mul U (diag3 s1 s2 0)) (transpose3 V))"
proof -
  define U' where "U' = (if determinant U > 0 then U else mat_neg U)"
  define Vt' where "Vt' = (if determinant V > 0 then transpose3 V else mat_neg (transpose3 V))"
  define a where "a = (if determinant U > 0 then 1 else - 1 :: real)"
  define b where "b = (if determinant V > 0 then 1 else - 1 :: real)"
  define p where "p = Parameters (quaternion_of_matrix U') (sqrt (s1 / s2 - 1)) (quaternion_of_matrix Vt')"
  have s1: "0 < s1" using order by linarith
  have ratio: "0 \<le> s1 / s2 - 1" using order by simp
  have "From svd quaternion_of_matrix f = Returns p"
    using qu(1) qv(1) ratio order(2)
    by (simp add: From_def svd Let_def normalize_unit p_def U'_def Vt'_def)
  moreover have "To p = mat_scale (a * b / s1) (mat_mul (mat_mul U (diag3 s1 s2 0)) (transpose3 V))"
  proof -
    have sq: "sqrt (s1 / s2 - 1) * sqrt (s1 / s2 - 1) = s1 / s2 - 1"
      using ratio by simp
    have "1 / (1 + sqrt (s1 / s2 - 1) * sqrt (s1 / s2 - 1)) = 1 / (s1 / s2)"
      by (simp only: sq) simp
    then have s: "1 / (1 + sqrt (s1 / s2 - 1) * sqrt (s1 / s2 - 1)) = s2 / s1"
      by simp
    have U': "U' = mat_scale a U"
      by (cases U) (simp add: U'_def a_def mat_neg_def)
    have Vt': "Vt' = mat_scale b (transpose3 V)"
      by (cases V) (simp add: Vt'_def b_def mat_neg_def)
    have s': "1 / (1 + \<bar>s1 / s2 - 1\<bar>) = s2 / s1"
      using s ratio by simp
    have RU: "toRotationMatrix (quaternion_of_matrix U') = U'"
      unfolding U'_def by (rule qu(2))
    have RV: "toRotationMatrix (quaternion_of_matrix Vt') = Vt'"
      unfolding Vt'_def by (rule qv(2))
    have "To p = mat_mul (mat_mul U' (diag3 1 (s2 / s1) 0)) Vt'"
      by (simp add: To_def p_def Let_def s' diag3_def RU RV)
    also have "\<dots> = mat_scale (a * b) (mat_mul (mat_mul U (diag3 1 (s2 / s1) 0)) (transpose3 V))"
      by (simp add: U' Vt' mat_mul_scale_left mat_mul_scale_right mat_scale_mat_scale mult.commute)
    also have "diag3 1 (s2 / s1) 0 = mat_scale (1 / s1) (diag3 s1 s2 0)"
      using s1 by (simp add: diag3_scale)
    finally show ?thesis
      by (simp add: mat_mul_scale_left mat_mul_scale_right mat_scale_mat_scale)
  qed
  moreover have "a * b / s1 \<noteq> 0"
    using s1 by (simp add: a_def b_def)
  ultimately show ?thesis by blast
qed

section \<open>The closest matrix of rank 2\<close>

lemma norm2_pos_iff: "0 < norm2 x \<longleftrightarrow> x \<noteq> Vec3 0 0 0"
proof (cases x)
  case (Vec3 a b c)
  have "0 < a\<^sup>2 + b\<^sup>2 + c\<^sup>2 \<longleftrightarrow> \<not> (a = 0 \<and> b = 0 \<and> c = 0)"
    by (metis add_nonneg_eq_0_iff add_nonneg_nonneg less_eq_real_def not_less zero_le_power2
        zero_eq_power2 power_zero_numeral add.right_neutral)
  then show ?thesis by (simp add: Vec3 norm2_def)
qed

lemma null_vector:
  assumes "determinant C = 0"
  shows "\<exists>x. 0 < norm2 x \<and> mat_vec C x = Vec3 0 0 0"
proof (cases C)
  case (Mat3 a b c d e f g h i)
  have det: "a * (e * i - f * h) - b * (d * i - f * g) + c * (d * h - e * g) = 0"
    using assms by (simp add: Mat3)
  define k0 where "k0 = Vec3 (e * i - f * h) (f * g - d * i) (d * h - e * g)"
  define k1 where "k1 = Vec3 (c * h - b * i) (a * i - c * g) (b * g - a * h)"
  define k2 where "k2 = Vec3 (b * f - c * e) (c * d - a * f) (a * e - b * d)"
  have n0: "mat_vec C k0 = Vec3 0 0 0"
    using det by (simp add: Mat3 k0_def algebra_simps)
  have n1: "mat_vec C k1 = Vec3 0 0 0"
    using det by (simp add: Mat3 k1_def algebra_simps)
  have n2: "mat_vec C k2 = Vec3 0 0 0"
    using det by (simp add: Mat3 k2_def algebra_simps)
  show ?thesis
  proof (cases "k0 = Vec3 0 0 0 \<and> k1 = Vec3 0 0 0 \<and> k2 = Vec3 0 0 0")
    case False
    then show ?thesis
      using n0 n1 n2 norm2_pos_iff by blast
  next
    case True
    then have m:
      "e * i = f * h" "f * g = d * i" "d * h = e * g"
      "c * h = b * i" "a * i = c * g" "b * g = a * h"
      "b * f = c * e" "c * d = a * f" "a * e = b * d"
      by (simp_all add: k0_def k1_def k2_def)
    show ?thesis
    proof (cases "C = Mat3 0 0 0  0 0 0  0 0 0")
      case True
      then have "0 < norm2 (Vec3 1 0 0) \<and> mat_vec C (Vec3 1 0 0) = Vec3 0 0 0"
        by (simp add: norm2_def)
      then show ?thesis by blast
    next
      case False
      then consider (a) "a \<noteq> 0" | (b) "b \<noteq> 0" | (c) "c \<noteq> 0" | (d) "d \<noteq> 0" | (e) "e \<noteq> 0" | (f) "f \<noteq> 0" | (g) "g \<noteq> 0" | (h) "h \<noteq> 0" | (i) "i \<noteq> 0"
        by (auto simp add: Mat3)
      then show ?thesis
      proof cases
        case a
        have "mat_vec C (Vec3 (- c) (0) (a)) = Vec3 0 0 0"
          using m by (simp add: Mat3 algebra_simps)
        moreover have "0 < norm2 (Vec3 (- c) (0) (a))"
          using a by (simp add: norm2_pos_iff)
        ultimately show ?thesis by blast
        next
        case b
        have "mat_vec C (Vec3 (b) (- a) (0)) = Vec3 0 0 0"
          using m by (simp add: Mat3 algebra_simps)
        moreover have "0 < norm2 (Vec3 (b) (- a) (0))"
          using b by (simp add: norm2_pos_iff)
        ultimately show ?thesis by blast
        next
        case c
        have "mat_vec C (Vec3 (0) (c) (- b)) = Vec3 0 0 0"
          using m by (simp add: Mat3 algebra_simps)
        moreover have "0 < norm2 (Vec3 (0) (c) (- b))"
          using c by (simp add: norm2_pos_iff)
        ultimately show ?thesis by blast
        next
        case d
        have "mat_vec C (Vec3 (- f) (0) (d)) = Vec3 0 0 0"
          using m by (simp add: Mat3 algebra_simps)
        moreover have "0 < norm2 (Vec3 (- f) (0) (d))"
          using d by (simp add: norm2_pos_iff)
        ultimately show ?thesis by blast
        next
        case e
        have "mat_vec C (Vec3 (e) (- d) (0)) = Vec3 0 0 0"
          using m by (simp add: Mat3 algebra_simps)
        moreover have "0 < norm2 (Vec3 (e) (- d) (0))"
          using e by (simp add: norm2_pos_iff)
        ultimately show ?thesis by blast
        next
        case f
        have "mat_vec C (Vec3 (0) (f) (- e)) = Vec3 0 0 0"
          using m by (simp add: Mat3 algebra_simps)
        moreover have "0 < norm2 (Vec3 (0) (f) (- e))"
          using f by (simp add: norm2_pos_iff)
        ultimately show ?thesis by blast
        next
        case g
        have "mat_vec C (Vec3 (- i) (0) (g)) = Vec3 0 0 0"
          using m by (simp add: Mat3 algebra_simps)
        moreover have "0 < norm2 (Vec3 (- i) (0) (g))"
          using g by (simp add: norm2_pos_iff)
        ultimately show ?thesis by blast
        next
        case h
        have "mat_vec C (Vec3 (h) (- g) (0)) = Vec3 0 0 0"
          using m by (simp add: Mat3 algebra_simps)
        moreover have "0 < norm2 (Vec3 (h) (- g) (0))"
          using h by (simp add: norm2_pos_iff)
        ultimately show ?thesis by blast
        next
        case i
        have "mat_vec C (Vec3 (0) (i) (- h)) = Vec3 0 0 0"
          using m by (simp add: Mat3 algebra_simps)
        moreover have "0 < norm2 (Vec3 (0) (i) (- h))"
          using i by (simp add: norm2_pos_iff)
        ultimately show ?thesis by blast
      qed
    qed
  qed
qed

lemma transpose3_transpose3: "transpose3 (transpose3 A) = A"
  by (cases A) simp

lemma right_inverse_left_inverse:
  assumes "mat_mul A B = Identity"
  shows "mat_mul B A = Identity"
proof -
  have "determinant A * determinant B = 1"
    using determinant_mat_mul [of A B] by (simp add: assms determinant_Identity)
  then have dA: "determinant A \<noteq> 0" by auto
  have "mat_mul (adjugate A) (mat_mul A B) = adjugate A"
    by (simp add: assms mat_mul_Identity_right)
  moreover have adjA: "mat_mul (adjugate A) A = mat_scale (determinant A) Identity"
    by (cases A) (simp add: Identity_def algebra_simps)
  ultimately have "mat_scale (determinant A) B = adjugate A"
    by (simp add: mat_mul_assoc [symmetric] mat_mul_scale_left mat_mul_Identity_left)
  then have "mat_scale (determinant A) (mat_mul B A) = mat_scale (determinant A) Identity"
    by (simp add: mat_mul_scale_left [symmetric] adjA)
  then show ?thesis
    using dA by (cases "mat_mul B A") (simp add: Identity_def)
qed

lemma frobenius2_gram: "frobenius2 A = trace3 (gram A)"
  by (cases A) (simp add: gram_def power2_eq_square)

lemma gram_sandwich:
  assumes "mat_mul (transpose3 U) U = Identity"
  shows "gram (mat_mul (mat_mul U D) W) = mat_mul (mat_mul (transpose3 W) (gram D)) W"
proof -
  have "gram (mat_mul (mat_mul U D) W)
      = mat_mul (mat_mul (transpose3 W) (mat_mul (transpose3 D) (mat_mul (mat_mul (transpose3 U) U) D))) W"
    by (simp add: gram_def transpose3_mat_mul mat_mul_assoc)
  then show ?thesis
    by (simp add: assms mat_mul_Identity_left gram_def)
qed

lemma frobenius2_sandwich:
  assumes "mat_mul (transpose3 U) U = Identity" and "mat_mul W (transpose3 W) = Identity"
  shows "frobenius2 (mat_mul (mat_mul U D) W) = frobenius2 D"
  by (simp add: frobenius2_gram gram_sandwich [OF assms(1)] conjugate_invariants(1) [OF assms(2)])

lemma mat_sub_sandwich:
  "mat_sub (mat_mul (mat_mul U D) W) (mat_mul (mat_mul U E) W) = mat_mul (mat_mul U (mat_sub D E)) W"
  by (cases U; cases D; cases E; cases W) (simp add: algebra_simps)

lemma mat_vec_mat_sub:
  "mat_vec (mat_sub A B) x = Vec3 (v0 (mat_vec A x) - v0 (mat_vec B x))
      (v1 (mat_vec A x) - v1 (mat_vec B x)) (v2 (mat_vec A x) - v2 (mat_vec B x))"
  by (cases A; cases B; cases x) (simp add: algebra_simps)

lemma cauchy_schwarz3:
  "(a * x + b * y + c * z)\<^sup>2 \<le> (a\<^sup>2 + b\<^sup>2 + c\<^sup>2) * (x\<^sup>2 + y\<^sup>2 + z\<^sup>2)" for a :: real
proof -
  have "(a\<^sup>2 + b\<^sup>2 + c\<^sup>2) * (x\<^sup>2 + y\<^sup>2 + z\<^sup>2) - (a * x + b * y + c * z)\<^sup>2
      = (a * y - b * x)\<^sup>2 + (a * z - c * x)\<^sup>2 + (b * z - c * y)\<^sup>2"
    by (simp add: power2_eq_square algebra_simps)
  moreover have "0 \<le> (a * y - b * x)\<^sup>2 + (a * z - c * x)\<^sup>2 + (b * z - c * y)\<^sup>2"
    by simp
  ultimately show ?thesis by linarith
qed

lemma norm2_mat_vec_le: "norm2 (mat_vec A u) \<le> frobenius2 A * norm2 u"
proof (cases A)
  case (Mat3 a00 a01 a02 a10 a11 a12 a20 a21 a22)
  obtain x y z where x: "u = Vec3 x y z" by (cases u) auto
  have "(a00 * x + a01 * y + a02 * z)\<^sup>2 + (a10 * x + a11 * y + a12 * z)\<^sup>2
      + (a20 * x + a21 * y + a22 * z)\<^sup>2
      \<le> (a00\<^sup>2 + a01\<^sup>2 + a02\<^sup>2) * (x\<^sup>2 + y\<^sup>2 + z\<^sup>2)
      + (a10\<^sup>2 + a11\<^sup>2 + a12\<^sup>2) * (x\<^sup>2 + y\<^sup>2 + z\<^sup>2)
      + (a20\<^sup>2 + a21\<^sup>2 + a22\<^sup>2) * (x\<^sup>2 + y\<^sup>2 + z\<^sup>2)"
    by (intro add_mono cauchy_schwarz3)
  also have "\<dots> = (a00\<^sup>2 + a01\<^sup>2 + a02\<^sup>2 + a10\<^sup>2 + a11\<^sup>2 + a12\<^sup>2 + a20\<^sup>2 + a21\<^sup>2 + a22\<^sup>2)
      * (x\<^sup>2 + y\<^sup>2 + z\<^sup>2)"
    by (simp add: algebra_simps)
  finally show ?thesis
    by (simp add: Mat3 x norm2_def)
qed

lemma norm2_mat_vec_gram:
  "norm2 (mat_vec A x) = v0 x * v0 (mat_vec (gram A) x) + v1 x * v1 (mat_vec (gram A) x)
     + v2 x * v2 (mat_vec (gram A) x)"
  by (cases A; cases x) (simp add: norm2_def gram_def power2_eq_square algebra_simps)

lemma norm2_orthogonal:
  assumes "mat_mul (transpose3 U) U = Identity"
  shows "norm2 (mat_vec U x) = norm2 x"
proof -
  have "gram U = Identity" using assms by (simp add: gram_def)
  then have "norm2 (mat_vec U x) = v0 x * v0 x + v1 x * v1 x + v2 x * v2 x"
    by (simp only: norm2_mat_vec_gram mat_vec_Identity)
  then show ?thesis
    by (simp add: norm2_def power2_eq_square)
qed

lemma norm2_diag3_ge:
  assumes "s3 \<le> s2" and "s2 \<le> s1" and "0 \<le> s3"
  shows "s3\<^sup>2 * norm2 y \<le> norm2 (mat_vec (diag3 s1 s2 s3) y)"
proof (cases y)
  case (Vec3 a b c)
  have "s3\<^sup>2 \<le> s2\<^sup>2" and "s3\<^sup>2 \<le> s1\<^sup>2"
    using assms by (simp_all add: power_mono)
  then have "s3\<^sup>2 * a\<^sup>2 \<le> s1\<^sup>2 * a\<^sup>2" and "s3\<^sup>2 * b\<^sup>2 \<le> s2\<^sup>2 * b\<^sup>2"
    by (simp_all add: mult_right_mono)
  then show ?thesis
    by (simp add: Vec3 diag3_def norm2_def power_mult_distrib algebra_simps)
qed

text \<open>The theorem of Eckart and Young for \<open>3 \<times> 3\<close> matrices: replacing the
  smallest singular value by zero gives a singular matrix that is as close to
  \<open>f\<close>, in the Frobenius norm, as a singular matrix can be.\<close>

lemma truncation_is_closest:
  assumes f: "f = mat_mul (mat_mul U (diag3 s1 s2 s3)) (transpose3 V)"
    and U: "mat_mul (transpose3 U) U = Identity"
    and V: "mat_mul (transpose3 V) V = Identity"
    and order: "s3 \<le> s2" "s2 \<le> s1" "0 \<le> s3"
    and B: "B = mat_mul (mat_mul U (diag3 s1 s2 0)) (transpose3 V)"
  shows "determinant B = 0"
    and "determinant B' = 0 \<Longrightarrow> frobenius2 (mat_sub f B) \<le> frobenius2 (mat_sub f B')"
proof -
  show "determinant B = 0"
    by (simp add: B determinant_mat_mul diag3_def)
  have VV: "mat_mul V (transpose3 V) = Identity"
    by (rule right_inverse_left_inverse [OF V])
  have "mat_sub f B = mat_mul (mat_mul U (diag3 0 0 s3)) (transpose3 V)"
    by (simp add: f B mat_sub_sandwich diag3_def)
  then have near: "frobenius2 (mat_sub f B) = s3\<^sup>2"
    using frobenius2_sandwich [OF U, of "transpose3 V" "diag3 0 0 s3"] V
    by (simp add: transpose3_transpose3 diag3_def)
  assume "determinant B' = 0"
  then obtain x where x: "0 < norm2 x" "mat_vec B' x = Vec3 0 0 0"
    using null_vector by blast
  have "mat_vec (mat_sub f B') x = mat_vec f x"
    by (cases "mat_vec f x") (simp add: mat_vec_mat_sub x(2))
  then have "norm2 (mat_vec f x) \<le> frobenius2 (mat_sub f B') * norm2 x"
    using norm2_mat_vec_le [of "mat_sub f B'" x] by simp
  moreover have "norm2 (mat_vec f x) = norm2 (mat_vec (diag3 s1 s2 s3) (mat_vec (transpose3 V) x))"
    by (simp add: f mat_vec_mat_mul norm2_orthogonal [OF U])
  moreover have "s3\<^sup>2 * norm2 (mat_vec (transpose3 V) x)
      \<le> norm2 (mat_vec (diag3 s1 s2 s3) (mat_vec (transpose3 V) x))"
    by (rule norm2_diag3_ge [OF order])
  moreover have "norm2 (mat_vec (transpose3 V) x) = norm2 x"
    by (rule norm2_orthogonal) (simp add: transpose3_transpose3 VV)
  ultimately have "s3\<^sup>2 * norm2 x \<le> frobenius2 (mat_sub f B') * norm2 x"
    by simp
  then have "s3\<^sup>2 \<le> frobenius2 (mat_sub f B')"
    using x(1) by simp
  then show "frobenius2 (mat_sub f B) \<le> frobenius2 (mat_sub f B')"
    by (simp add: near)
qed

text \<open>When \<open>U\<close> is orthogonal, the matrix that \<open>From\<close> converts into a
  quaternion is a rotation: the contract of the conversion applies to it.\<close>

lemma proper_rotation:
  assumes "mat_mul (transpose3 U) U = Identity"
  defines "U' \<equiv> (if determinant U > 0 then U else mat_neg U)"
  shows "mat_mul (transpose3 U') U' = Identity" and "determinant U' = 1"
proof -
  have "determinant U * determinant U = 1"
    using determinant_mat_mul [of "transpose3 U" U]
    by (simp add: assms(1) determinant_transpose3 determinant_Identity)
  then have d: "determinant U = 1 \<or> determinant U = - 1"
    using square_eq_1_iff by blast
  show "determinant U' = 1"
    using d by (auto simp add: U'_def determinant_neg)
  have "mat_mul (transpose3 (mat_neg U)) (mat_neg U) = mat_mul (transpose3 U) U"
    by (cases U) (simp add: mat_neg_def)
  then show "mat_mul (transpose3 U') U' = Identity"
    by (simp add: U'_def assms(1))
qed

text \<open>
  Claim C5. Let \<open>f\<close> be a \<open>3 \<times> 3\<close> matrix with a singular value
  decomposition \<open>f = U diag(s1, s2, s3) V\<^sup>T\<close> (\<open>U\<close> and \<open>V\<close> orthogonal,
  \<open>s1 \<ge> s2 \<ge> s3 \<ge> 0\<close>), as returned by the library, whose second singular
  value is not zero, and let the library's conversion into a quaternion return,
  for each of the two rotations it is applied to, a unit quaternion of that
  rotation. Then \<open>From\<close> returns parameters \<open>p\<close>, and \<open>To p\<close> is a nonzero
  multiple of a matrix \<open>B\<close> that is singular (of rank at most 2) and as close
  to \<open>f\<close> in the Frobenius norm as any singular matrix: the closest rank-2
  approximation of \<open>f\<close>, up to an overall scale factor.
\<close>

theorem To_From_closest_rank2:
  assumes svd: "svd f = (U, Vec3 s1 s2 s3, V)"
    and dec: "f = mat_mul (mat_mul U (diag3 s1 s2 s3)) (transpose3 V)"
    and U: "mat_mul (transpose3 U) U = Identity"
    and V: "mat_mul (transpose3 V) V = Identity"
    and order: "s3 \<le> s2" "s2 \<le> s1" "0 \<le> s3"
    and nz: "s2 \<noteq> 0"
    and qu: "quaternion_norm2 (quaternion_of_matrix (if determinant U > 0 then U else mat_neg U)) = 1"
            "toRotationMatrix (quaternion_of_matrix (if determinant U > 0 then U else mat_neg U))
               = (if determinant U > 0 then U else mat_neg U)"
    and qv: "quaternion_norm2 (quaternion_of_matrix
               (if determinant V > 0 then transpose3 V else mat_neg (transpose3 V))) = 1"
            "toRotationMatrix (quaternion_of_matrix
               (if determinant V > 0 then transpose3 V else mat_neg (transpose3 V)))
               = (if determinant V > 0 then transpose3 V else mat_neg (transpose3 V))"
  shows "\<exists>p c B. From svd quaternion_of_matrix f = Returns p \<and> c \<noteq> 0
           \<and> To p = mat_scale c B
           \<and> determinant B = 0
           \<and> (\<forall>B'. determinant B' = 0 \<longrightarrow>
                  frobenius2 (mat_sub f B) \<le> frobenius2 (mat_sub f B'))"
proof -
  define B where "B = mat_mul (mat_mul U (diag3 s1 s2 0)) (transpose3 V)"
  have pos: "0 < s2" using order(1,3) nz by linarith
  obtain p c where pc: "From svd quaternion_of_matrix f = Returns p" "c \<noteq> 0"
      "To p = mat_scale c B"
    using To_From [of svd f U s1 s2 s3 V quaternion_of_matrix] svd order(2) pos qu qv
    unfolding B_def by blast
  note near = truncation_is_closest [OF dec U V order B_def]
  show ?thesis
    using pc near by blast
qed

theorem To_From_closest_rank2_witness:
  "\<exists>p c B. From diagonal_svd identity_quaternion (diag3 2 1 (1 / 2)) = Returns p \<and> c \<noteq> 0
     \<and> To p = mat_scale c B
     \<and> determinant B = 0
     \<and> (\<forall>B'. determinant B' = 0 \<longrightarrow>
            frobenius2 (mat_sub (diag3 2 1 (1 / 2)) B)
              \<le> frobenius2 (mat_sub (diag3 2 1 (1 / 2)) B'))"
  using To_From_closest_rank2 [of diagonal_svd "diag3 2 1 (1 / 2)" Identity 2 1 "1 / 2" Identity
      identity_quaternion]
  by (simp add: diagonal_svd_def identity_quaternion_def diag3_def Identity_def
      quaternion_norm2_def)

text \<open>On this example the parameters and the rebuilt matrix are as follows;
  the rebuilt matrix is half the closest matrix of rank 2, not \<open>f\<close> itself.\<close>

lemma To_From_example:
  "From diagonal_svd identity_quaternion (diag3 2 1 (1 / 2))
     = Returns (Parameters (Quaternion 0 0 0 1) 1 (Quaternion 0 0 0 1))"
  "To (Parameters (Quaternion 0 0 0 1) 1 (Quaternion 0 0 0 1)) = diag3 1 (1 / 2) 0"
  by (simp_all add: From_def To_def diagonal_svd_def identity_quaternion_def diag3_def
      Identity_def normalize_def quaternion_norm2_def Let_def)

end
